theory Spec2Isabelle
  imports Complex_Main "HOL-Library.Sublist"
begin

section \<open>Text primitives of the host language\<close>

text \<open>
  Strings are lists of 8-bit characters, read as code units below 256.  The white space
  of the regular expression class \<open>\s\<close> and of \<open>String.prototype.trim\<close> in that range is
  TAB, LF, VT, FF, CR, SPACE and the no-break space.
\<close>

definition is_ws :: "char \<Rightarrow> bool" where
  "is_ws c = (c \<in> set [CHR 0x09, CHR 0x0A, CHR 0x0B, CHR 0x0C, CHR 0x0D, CHR 0x20, CHR 0xA0])"

text \<open>
  \<open>text.split(/\s+/)\<close>: every maximal run of white space is one separator.  A separator at
  the very start or the very end of the text leaves an empty string on that side, and
  the empty text splits into one empty string.
\<close>

function split_ws :: "string \<Rightarrow> string list" where
  "split_ws [] = [[]]"
| "split_ws (c # cs) =
     (if is_ws c then [] # split_ws (dropWhile is_ws cs)
      else (case split_ws cs of [] \<Rightarrow> [[c]] | t # ts \<Rightarrow> (c # t) # ts))"
  by pat_completeness auto
termination
  by (relation "measure length") (auto simp: le_imp_less_Suc length_dropWhile_le)

text \<open>\<open>Array.prototype.slice(a, b)\<close>: a negative index counts from the end.\<close>

definition js_slice :: "'a list \<Rightarrow> int \<Rightarrow> int \<Rightarrow> 'a list" where
  "js_slice xs a b =
     (let len = int (length xs);
          k = (if a < 0 then max (len + a) 0 else min a len);
          final = (if b < 0 then max (len + b) 0 else min b len)
      in take (nat (final - k)) (drop (nat k) xs))"

text \<open>\<open>Array.prototype.join(' ')\<close>.\<close>

fun js_join :: "string list \<Rightarrow> string" where
  "js_join [] = []"
| "js_join [w] = w"
| "js_join (w # v # ws) = w @ CHR '' '' # js_join (v # ws)"

text \<open>\<open>String.prototype.trim\<close>.\<close>

definition js_trim :: "string \<Rightarrow> string" where
  "js_trim s = rev (dropWhile is_ws (rev (dropWhile is_ws s)))"

section \<open>Chunker (chunkText of utils/helpers.js)\<close>

text \<open>
  The \<open>for\<close> loop of \<open>chunkText\<close>, with the loop index and the array of chunks built so
  far as arguments.  The loop has no bound of its own, so it is a partial function: the
  value \<open>None\<close> stands for a call that never returns.
\<close>

partial_function (option) chunkText_loop ::
  "string list \<Rightarrow> int \<Rightarrow> int \<Rightarrow> int \<Rightarrow> string list \<Rightarrow> string list option" where
  "chunkText_loop words chunkSize overlap i chunks =
     (if i < int (length words)
      then chunkText_loop words chunkSize overlap (i + (chunkSize - overlap))
             (if length (js_trim (js_join (js_slice words i (i + chunkSize)))) > 0
              then chunks @ [js_trim (js_join (js_slice words i (i + chunkSize)))]
              else chunks)
      else Some chunks)"

declare chunkText_loop.simps [code]

definition chunkText :: "string \<Rightarrow> int \<Rightarrow> int \<Rightarrow> string list option" where
  "chunkText text chunkSize overlap = chunkText_loop (split_ws text) chunkSize overlap 0 []"

text \<open>The chunking configuration of \<open>utils/constants.js\<close> (\<open>CHUNK_CONFIG\<close>).\<close>

definition CHUNK_CONFIG_size :: int where "CHUNK_CONFIG_size = 500"
definition CHUNK_CONFIG_overlap :: int where "CHUNK_CONFIG_overlap = 50"

subsection \<open>The sliding-window reference of the specification\<close>

text \<open>
  The reference is written from the specification's words, independently of the loop:
  given the tokens, a window starts at every multiple of \<open>windowSize - overlap\<close> below
  the number of tokens and holds up to \<open>windowSize\<close> consecutive tokens, joined by single
  spaces and trimmed; windows that trim to the empty string are omitted.  The words of
  a text, \<open>ws_tokens\<close>, are its maximal runs of characters that are not white space.
\<close>

function ws_tokens :: "string \<Rightarrow> string list" where
  "ws_tokens [] = []"
| "ws_tokens (c # cs) =
     (if is_ws c then ws_tokens cs
      else (c # takeWhile (\<lambda>x. \<not> is_ws x) cs) # ws_tokens (dropWhile (\<lambda>x. \<not> is_ws x) cs))"
  by pat_completeness auto
termination
  by (relation "measure length") (auto simp: le_imp_less_Suc length_dropWhile_le)

definition window_starts :: "nat \<Rightarrow> nat \<Rightarrow> nat list" where
  "window_starts n step = filter (\<lambda>i. step dvd i) [0 ..< n]"

definition sliding_windows :: "string list \<Rightarrow> int \<Rightarrow> int \<Rightarrow> string list" where
  "sliding_windows toks windowSize overlap =
     filter (\<lambda>s. s \<noteq> [])
       (map (\<lambda>i. js_trim (js_join (take (nat windowSize) (drop i toks))))
            (window_starts (length toks) (nat (windowSize - overlap))))"

text \<open>The trimmed, joined window of up to \<open>w\<close> tokens starting at token \<open>i\<close>.\<close>

definition window_at :: "string list \<Rightarrow> int \<Rightarrow> nat \<Rightarrow> string" where
  "window_at toks w i = js_trim (js_join (take (nat w) (drop i toks)))"

section \<open>Plans and tenants (utils/constants.js)\<close>

record limits =
  apiCallsPerMonth :: nat
  sectionsPerTenant :: nat
  tokensPerRequest :: nat
  requestsPerMinute :: nat
  requestsPerHour :: nat

datatype plan = FREE | PRO | ENTERPRISE

fun PLANS_limits :: "plan \<Rightarrow> limits" where
  "PLANS_limits FREE = \<lparr>apiCallsPerMonth = 1000, sectionsPerTenant = 10, tokensPerRequest = 2000,
      requestsPerMinute = 10, requestsPerHour = 100\<rparr>"
| "PLANS_limits PRO = \<lparr>apiCallsPerMonth = 10000, sectionsPerTenant = 100, tokensPerRequest = 4000,
      requestsPerMinute = 30, requestsPerHour = 500\<rparr>"
| "PLANS_limits ENTERPRISE = \<lparr>apiCallsPerMonth = 100000, sectionsPerTenant = 1000,
      tokensPerRequest = 8000, requestsPerMinute = 100, requestsPerHour = 2000\<rparr>"

text \<open>The part of the tenant object that the middleware reads from \<open>request.tenant\<close>.\<close>

record tenant =
  tenantId :: string
  tenant_limits :: limits

text \<open>Decimal rendering of a number inside a template literal.\<close>

definition digit_char :: "nat \<Rightarrow> char" where
  "digit_char d = char_of (of_char CHR ''0'' + d)"

function show_nat :: "nat \<Rightarrow> string" where
  "show_nat n = (if n < 10 then [digit_char n] else show_nat (n div 10) @ [digit_char (n mod 10)])"
  by pat_completeness auto
termination
  by (relation "measure id") auto

declare show_nat.simps [simp del]

section \<open>Counter store (db/redis.js)\<close>

text \<open>
  The state of the Redis wrapper and of the server behind it.  \<open>connected\<close> is the
  wrapper's guard \<open>this.client && this.isConnected\<close>.  \<open>faults\<close> schedules the commands
  that reach the client: each command takes the head of the list, and throws inside
  the client when the head is \<open>True\<close>; an empty schedule means that no command throws.
  The keys written by the middleware hold integer counters, so \<open>kv\<close> maps a key to its
  integer; \<open>ttl\<close> is the expiry in seconds set by \<open>EXPIRE\<close>.  The passing of time, and so
  the removal of an expired key, is not part of the state.

  Every method of the wrapper catches the client's error and returns \<open>null\<close>, here \<open>None\<close>;
  a command that throws leaves the counters as they were.
\<close>

record redis =
  connected :: bool
  faults :: "bool list"
  kv :: "string \<rightharpoonup> int"
  ttl :: "string \<rightharpoonup> nat"

definition redis_incr :: "string \<Rightarrow> redis \<Rightarrow> int option \<times> redis" where
  "redis_incr key r =
     (if \<not> connected r then (None, r)
      else case faults r of
        True # fs \<Rightarrow> (None, r\<lparr>faults := fs\<rparr>)
      | _ \<Rightarrow> (let v = (case kv r key of None \<Rightarrow> 0 | Some n \<Rightarrow> n) + 1
             in (Some v, r\<lparr>faults := tl (faults r), kv := (kv r)(key \<mapsto> v)\<rparr>)))"

text \<open>
  \<open>GET\<close> answers with the decimal string of the counter, which the caller passes to
  \<open>parseInt\<close>; the model returns the integer that this string denotes.
\<close>

definition redis_get :: "string \<Rightarrow> redis \<Rightarrow> int option \<times> redis" where
  "redis_get key r =
     (if \<not> connected r then (None, r)
      else case faults r of
        True # fs \<Rightarrow> (None, r\<lparr>faults := fs\<rparr>)
      | _ \<Rightarrow> (kv r key, r\<lparr>faults := tl (faults r)\<rparr>))"

definition redis_expire :: "string \<Rightarrow> nat \<Rightarrow> redis \<Rightarrow> int option \<times> redis" where
  "redis_expire key seconds r =
     (if \<not> connected r then (None, r)
      else case faults r of
        True # fs \<Rightarrow> (None, r\<lparr>faults := fs\<rparr>)
      | _ \<Rightarrow> (if kv r key = None then (Some 0, r\<lparr>faults := tl (faults r)\<rparr>)
             else (Some 1, r\<lparr>faults := tl (faults r), ttl := (ttl r)(key \<mapsto> seconds)\<rparr>)))"

text \<open>A store that is connected and has no failing command scheduled.\<close>

definition redis_ok :: "redis \<Rightarrow> bool" where
  "redis_ok r = (connected r \<and> faults r = [])"

text \<open>The value of a counter, an absent key counting as zero.\<close>

definition counter :: "redis \<Rightarrow> string \<Rightarrow> int" where
  "counter r key = (case kv r key of None \<Rightarrow> 0 | Some n \<Rightarrow> n)"

section \<open>Quota middleware (middleware/rate-limit.js)\<close>

text \<open>
  A response sent by the middleware: the status code and the fields of the JSON body,
  an absent field being \<open>None\<close>.  \<open>usage\<close> holds \<open>used\<close> and \<open>limit\<close>.
\<close>

record reply =
  code :: nat
  error :: string
  message :: string
  retryAfter :: "nat option"
  usage :: "(int \<times> nat) option"

text \<open>
  What a pre-handler leaves behind: the response it sent, if any (\<open>None\<close> lets the
  request proceed to the route handler), and the headers it set.
\<close>

record outcome =
  sent :: "reply option"
  headers :: "(string \<times> int) list"

definition proceed :: outcome where
  "proceed = \<lparr>sent = None, headers = []\<rparr>"

text \<open>
  \<open>null\<close> in a numeric comparison or subtraction is converted to \<open>0\<close>.
\<close>

definition to_number :: "int option \<Rightarrow> int" where
  "to_number v = (case v of None \<Rightarrow> 0 | Some n \<Rightarrow> n)"

definition minuteKey :: "string \<Rightarrow> nat \<Rightarrow> string" where
  "minuteKey tid now = ''ratelimit:'' @ tid @ '':minute:'' @ show_nat (now div 60000)"

definition hourKey :: "string \<Rightarrow> nat \<Rightarrow> string" where
  "hourKey tid now = ''ratelimit:'' @ tid @ '':hour:'' @ show_nat (now div 3600000)"

definition monthKey :: "string \<Rightarrow> string \<Rightarrow> string" where
  "monthKey tid currentMonth = ''usage:'' @ tid @ '':month:'' @ currentMonth"

definition minute_denied :: "limits \<Rightarrow> reply" where
  "minute_denied l = \<lparr>code = 429, error = ''Rate limit exceeded'',
     message = ''Rate limit: '' @ show_nat (requestsPerMinute l) @ '' requests per minute'',
     retryAfter = Some 60, usage = None\<rparr>"

definition hour_denied :: "limits \<Rightarrow> reply" where
  "hour_denied l = \<lparr>code = 429, error = ''Rate limit exceeded'',
     message = ''Rate limit: '' @ show_nat (requestsPerHour l) @ '' requests per hour'',
     retryAfter = Some 3600, usage = None\<rparr>"

definition month_denied :: "limits \<Rightarrow> int \<Rightarrow> reply" where
  "month_denied l usageCount = \<lparr>code = 429, error = ''Monthly limit exceeded'',
     message = ''Monthly limit of '' @ show_nat (apiCallsPerMonth l)
                 @ '' API calls exceeded. Please upgrade your plan.'',
     retryAfter = None, usage = Some (usageCount, apiCallsPerMonth l)\<rparr>"

text \<open>
  \<open>rateLimiter(request, reply)\<close>.  The arguments are \<open>request.tenant\<close> (absent when the
  authentication hook did not set it) and the value of \<open>Date.now()\<close> in milliseconds;
  the source reads the clock once for each key, and the model takes one value for both
  reads.  The \<open>try\<close> block has no statement that throws in this model,
  since the store's wrapper returns \<open>null\<close> instead of throwing; the \<open>catch\<close> branch, which
  logs and lets the request proceed, is therefore absent.
\<close>

definition rateLimiter :: "tenant option \<Rightarrow> nat \<Rightarrow> redis \<Rightarrow> outcome \<times> redis" where
  "rateLimiter tn now r =
     (case tn of
        None \<Rightarrow> (proceed, r)
      | Some t \<Rightarrow>
          (case redis_incr (minuteKey (tenantId t) now) r of (minuteCount, r1) \<Rightarrow>
           (case (if minuteCount = Some 1
                  then snd (redis_expire (minuteKey (tenantId t) now) 60 r1) else r1) of r2 \<Rightarrow>
            if to_number minuteCount > int (requestsPerMinute (tenant_limits t))
            then (\<lparr>sent = Some (minute_denied (tenant_limits t)), headers = []\<rparr>, r2)
            else
              (case redis_incr (hourKey (tenantId t) now) r2 of (hourCount, r3) \<Rightarrow>
               (case (if hourCount = Some 1
                      then snd (redis_expire (hourKey (tenantId t) now) 3600 r3) else r3) of r4 \<Rightarrow>
                if to_number hourCount > int (requestsPerHour (tenant_limits t))
                then (\<lparr>sent = Some (hour_denied (tenant_limits t)), headers = []\<rparr>, r4)
                else
                  (\<lparr>sent = None,
                    headers =
                      [(''X-RateLimit-Limit-Minute'', int (requestsPerMinute (tenant_limits t))),
                       (''X-RateLimit-Remaining-Minute'',
                          max 0 (int (requestsPerMinute (tenant_limits t)) - to_number minuteCount)),
                       (''X-RateLimit-Limit-Hour'', int (requestsPerHour (tenant_limits t))),
                       (''X-RateLimit-Remaining-Hour'',
                          max 0 (int (requestsPerHour (tenant_limits t)) - to_number hourCount))]\<rparr>,
                   r4))))))"

text \<open>
  \<open>checkMonthlyLimit(request, reply)\<close>.  \<open>currentMonth\<close> is the \<open>YYYY-MM\<close> prefix of the ISO
  rendering of the current date.
\<close>

definition checkMonthlyLimit :: "tenant option \<Rightarrow> string \<Rightarrow> redis \<Rightarrow> outcome \<times> redis" where
  "checkMonthlyLimit tn currentMonth r =
     (case tn of
        None \<Rightarrow> (proceed, r)
      | Some t \<Rightarrow>
          (case redis_get (monthKey (tenantId t) currentMonth) r of (monthlyUsage, r1) \<Rightarrow>
           (case (case monthlyUsage of None \<Rightarrow> 0 | Some v \<Rightarrow> v) of usageCount \<Rightarrow>
            if usageCount \<ge> int (apiCallsPerMonth (tenant_limits t))
            then (\<lparr>sent = Some (month_denied (tenant_limits t) usageCount), headers = []\<rparr>, r1)
            else
              (case redis_incr (monthKey (tenantId t) currentMonth) r1 of (_, r2) \<Rightarrow>
               (proceed,
                if usageCount = 0
                then snd (redis_expire (monthKey (tenantId t) currentMonth) (60 * 24 * 3600) r2)
                else r2)))))"

text \<open>
  A sequence of admission calls of one tenant, applied one after the other: the outcome
  of each call, and the store after the last.
\<close>

fun rateLimiter_calls :: "tenant \<Rightarrow> nat list \<Rightarrow> redis \<Rightarrow> outcome list \<times> redis" where
  "rateLimiter_calls t [] r = ([], r)"
| "rateLimiter_calls t (now # ts) r =
     (case rateLimiter (Some t) now r of (out, r') \<Rightarrow>
      (case rateLimiter_calls t ts r' of (outs, r'') \<Rightarrow> (out # outs, r'')))"

text \<open>
  The next \<open>n\<close> commands sent to the store fail: the wrapper is not connected, or the
  client throws on each of them.
\<close>

definition fails_next :: "nat \<Rightarrow> redis \<Rightarrow> bool" where
  "fails_next n r = (\<not> connected r \<or> take n (faults r) = replicate n True)"

text \<open>A tenant on the free plan and an empty, working store, for concrete evaluations.\<close>

definition tenant_free :: tenant where
  "tenant_free = \<lparr>tenantId = ''ten_a'', tenant_limits = PLANS_limits FREE\<rparr>"

definition redis_empty :: redis where
  "redis_empty = \<lparr>connected = True, faults = [], kv = Map.empty, ttl = Map.empty\<rparr>"

section \<open>Regular expressions of the keyword tier\<close>

text \<open>An exception of the host language or a rejection by a collaborator.\<close>

datatype js_error = Error string | SyntaxError string | MongoError string

text \<open>
  \<open>String.prototype.toLowerCase\<close> on code units below 256: the ASCII capitals and the
  Latin-1 capitals (all of \<open>0xC0 .. 0xDE\<close> but the multiplication sign) move up by 32.
  Two such characters are equal under the \<open>i\<close> flag exactly when their lower-case forms
  are equal.
\<close>

definition to_lower :: "char \<Rightarrow> char" where
  "to_lower c =
     (let n = (of_char c :: nat)
      in if (65 \<le> n \<and> n \<le> 90) \<or> (192 \<le> n \<and> n \<le> 222 \<and> n \<noteq> 215)
         then char_of (n + 32) else c)"

definition toLowerCase :: "string \<Rightarrow> string" where
  "toLowerCase s = map to_lower s"

text \<open>
  The characters that the source escapes at line 147 with
  \<open>replace(/[.*+?^${}()|[\]\\]/g, '\\$&')\<close>: the syntax characters of a pattern.
\<close>

definition rx_special :: "char \<Rightarrow> bool" where
  "rx_special c = (c \<in> set (''.*+?^${}()|[]'' @ [CHR 0x5C]))"

text \<open>
  A keyword is used as a pattern in three places.  In the lookahead pattern of line 147
  it is escaped, so it matches itself.  In the per-keyword clauses of the query
  (line 156) and in the scoring loop (line 178) it is compiled as it is.  A keyword
  made of ordinary characters and dots compiles to a sequence of atoms: an ordinary
  character matches itself up to case, a dot matches any character but a line
  terminator (\<open>LF\<close> for the database's engine; \<open>LF\<close> and \<open>CR\<close> below 256 for the host
  language's).  A keyword with any other syntax character is left to the engine, which
  is a parameter here: it either rejects the pattern (\<open>None\<close>) or says how the compiled
  pattern behaves on a subject.
\<close>

datatype rx_atom = Lit char | AnyChar

definition rx_atoms :: "string \<Rightarrow> rx_atom list option" where
  "rx_atoms k =
     (if \<forall>c \<in> set k. c = CHR ''.'' \<or> \<not> rx_special c
      then Some (map (\<lambda>c. if c = CHR ''.'' then AnyChar else Lit c) k)
      else None)"

fun atom_match :: "string \<Rightarrow> rx_atom \<Rightarrow> char \<Rightarrow> bool" where
  "atom_match terminators (Lit a) c = (to_lower a = to_lower c)"
| "atom_match terminators AnyChar c = (c \<notin> set terminators)"

fun match_here :: "string \<Rightarrow> rx_atom list \<Rightarrow> string \<Rightarrow> bool" where
  "match_here terminators [] s = True"
| "match_here terminators (a # as) [] = False"
| "match_here terminators (a # as) (c # cs) =
     (atom_match terminators a c \<and> match_here terminators as cs)"

text \<open>An unanchored test: the pattern matches at some position of the subject.\<close>

fun match_anywhere :: "string \<Rightarrow> rx_atom list \<Rightarrow> string \<Rightarrow> bool" where
  "match_anywhere terminators p [] = match_here terminators p []"
| "match_anywhere terminators p (c # cs) =
     (match_here terminators p (c # cs) \<or> match_anywhere terminators p cs)"

text \<open>
  The number of matches of a global search, as \<open>subject.match(new RegExp(p, 'gi'))\<close>
  collects them: leftmost first, the search resuming behind each match; an empty
  pattern matches once at every position and once at the end.
\<close>

function count_matches :: "string \<Rightarrow> rx_atom list \<Rightarrow> string \<Rightarrow> nat" where
  "count_matches terminators p s =
     (if p = [] then Suc (length s)
      else if s = [] then 0
      else if match_here terminators p s
           then Suc (count_matches terminators p (drop (length p) s))
           else count_matches terminators p (tl s))"
  by pat_completeness auto
termination
  by (relation "measure (\<lambda>(t, p, s). length s)") auto

declare count_matches.simps [simp del]

record regex_engines =
  pcre_test :: "string \<Rightarrow> (string \<Rightarrow> bool) option"
  js_count :: "string \<Rightarrow> (string \<Rightarrow> nat) option"

definition pcre_terminators :: string where
  "pcre_terminators = [CHR 0x0A]"

definition js_terminators :: string where
  "js_terminators = [CHR 0x0A, CHR 0x0D]"

text \<open>\<open>{ $regex: keyword, $options: 'i' }\<close>: the test that the database compiles.\<close>

definition mongo_regex :: "regex_engines \<Rightarrow> string \<Rightarrow> (string \<Rightarrow> bool) option" where
  "mongo_regex eng k =
     (case rx_atoms k of
        Some p \<Rightarrow> Some (match_anywhere pcre_terminators p)
      | None \<Rightarrow> pcre_test eng k)"

text \<open>\<open>(s.match(new RegExp(keyword, 'gi')) || []).length\<close>, or the \<open>SyntaxError\<close>.\<close>

definition js_match_count :: "regex_engines \<Rightarrow> string \<Rightarrow> (string \<Rightarrow> nat) option" where
  "js_match_count eng k =
     (case rx_atoms k of
        Some p \<Rightarrow> Some (count_matches js_terminators p)
      | None \<Rightarrow> js_count eng k)"

text \<open>
  The lookahead pattern \<open>(?=.*k1)...(?=.*kn)\<close> over escaped keywords, searched with the
  \<open>i\<close> option: it matches at a position when every keyword occurs, up to case, between
  that position and the end of its line.  Some position does exactly when some line
  of the subject holds every keyword.  With no keyword the pattern is empty and
  matches every subject.
\<close>

fun lines_of :: "string \<Rightarrow> string list" where
  "lines_of [] = [[]]"
| "lines_of (c # cs) =
     (if c = CHR 0x0A then [] # lines_of cs
      else (case lines_of cs of [] \<Rightarrow> [[c]] | l # ls \<Rightarrow> (c # l) # ls))"

definition lookahead_match :: "string list \<Rightarrow> string \<Rightarrow> bool" where
  "lookahead_match keywords subject =
     list_ex (\<lambda>line. list_all (\<lambda>k. match_anywhere pcre_terminators (map Lit k) line) keywords)
       (lines_of subject)"

section \<open>Retrieval (services/vector-search.service.js)\<close>

text \<open>
  A chunk document with the fields that the services read or write; the embedding is
  of an arbitrary type \<open>'v\<close>.  (\<open>metadata\<close> and \<open>createdAt\<close> are carried along by the source
  and never inspected; they are left out.)
\<close>

record 'v chunk =
  chunk_tenantId :: string
  chunk_sectionId :: string
  chunkId :: string
  sectionType :: string
  sectionTitle :: string
  chunk_text :: string
  embedding :: 'v
  position :: nat

text \<open>
  The projection of a chunk returned by a query, and the same with its score.  The
  scores of the source are floating-point numbers; the model computes with the
  rationals that they stand for.
\<close>

record hit =
  hit_chunkId :: string
  hit_sectionId :: string
  hit_sectionType :: string
  hit_sectionTitle :: string
  hit_text :: string

record passage = hit +
  score :: rat

definition project :: "'v chunk \<Rightarrow> hit" where
  "project c = \<lparr>hit_chunkId = chunkId c, hit_sectionId = chunk_sectionId c,
     hit_sectionType = sectionType c, hit_sectionTitle = sectionTitle c,
     hit_text = chunk_text c\<rparr>"

definition with_score :: "hit \<Rightarrow> rat \<Rightarrow> passage" where
  "with_score h s = hit.extend h (passage.fields s)"

text \<open>
  The chunks collection as the retrieval service sees it.  The vector index and the
  text index are collaborators: \<open>vector_tier\<close> is the result of embedding the query and
  running the aggregation pipeline (\<open>$vectorSearch\<close>, the score threshold, \<open>$limit\<close>), and
  \<open>text_tier\<close> the result of the \<open>$text\<close> query with its limit and sort; either can raise.
  \<open>collection\<close> holds the documents in their natural order, and \<open>find_error\<close> is the
  error, if any, with which a plain \<open>find\<close> on the collection is rejected.
\<close>

record search_options =
  limit :: "nat option"
  minScore :: "rat option"
  opt_sectionType :: "string option"

record 'v chunks_db =
  vector_tier :: "string \<Rightarrow> string \<Rightarrow> search_options \<Rightarrow> js_error + passage list"
  text_tier :: "string \<Rightarrow> string \<Rightarrow> search_options \<Rightarrow> js_error + passage list"
  collection :: "'v chunk list"
  find_error :: "js_error option"
  engines :: regex_engines

definition VECTOR_SEARCH_limit :: nat where "VECTOR_SEARCH_limit = 5"

text \<open>\<open>cursor.limit(n)\<close>: a limit of 0 is no limit.\<close>

definition mongo_limit :: "nat \<Rightarrow> 'a list \<Rightarrow> 'a list" where
  "mongo_limit n xs = (if n = 0 then xs else take n xs)"

text \<open>Line 146: the lower-cased words of the query that are longer than two characters.\<close>

definition keywords_of :: "string \<Rightarrow> string list" where
  "keywords_of queryText = filter (\<lambda>k. length k > 2) (split_ws (toLowerCase queryText))"

text \<open>
  Lines 149 to 170: the \<open>find\<close> of the keyword tier.  The query is rejected when the
  collection cannot be read or when one of the per-keyword patterns does not compile.
  A document of the tenant (and of the section type, when one is asked for) is
  selected when its text matches the lookahead pattern, or its title does, or its
  text matches one of the keywords.
\<close>

definition compile_all :: "(string \<Rightarrow> 'a option) \<Rightarrow> string list \<Rightarrow> 'a list option" where
  "compile_all compile ks = those (map compile ks)"

definition regex_find ::
  "'v chunks_db \<Rightarrow> string \<Rightarrow> string list \<Rightarrow> nat \<Rightarrow> string option \<Rightarrow> js_error + hit list" where
  "regex_find db tid keywords n st =
     (case find_error db of
        Some e \<Rightarrow> Inl e
      | None \<Rightarrow>
         (case compile_all (mongo_regex (engines db)) keywords of
            None \<Rightarrow> Inl (MongoError ''Regular expression is invalid'')
          | Some tests \<Rightarrow>
              Inr (map project
                (mongo_limit (n * 2)
                  (filter (\<lambda>c. chunk_tenantId c = tid
                       \<and> (case st of None \<Rightarrow> True | Some ty \<Rightarrow> sectionType c = ty)
                       \<and> (lookahead_match keywords (chunk_text c)
                          \<or> lookahead_match keywords (sectionTitle c)
                          \<or> list_ex (\<lambda>test. test (chunk_text c)) tests))
                     (collection db))))))"

text \<open>
  Lines 173 to 186: the score of one result.  Each match of each keyword in the
  lower-cased text and title adds 0.15; the sum is capped at 1.
\<close>

definition relevance :: "(string \<Rightarrow> nat) list \<Rightarrow> hit \<Rightarrow> rat" where
  "relevance counters h =
     min (foldl (\<lambda>sc cnt. sc + of_nat (cnt (toLowerCase (hit_text h @ '' '' @ hit_sectionTitle h)))
                              * (15 / 100))
                0 counters)
         1"

text \<open>
  The scoring loop compiles every keyword for every result, so it raises on the first
  result when a keyword does not compile, and compiles nothing when there is no result.
\<close>

definition score_results :: "regex_engines \<Rightarrow> string list \<Rightarrow> hit list \<Rightarrow> js_error + passage list" where
  "score_results eng keywords results =
     (if results = [] then Inr []
      else case compile_all (js_match_count eng) keywords of
             None \<Rightarrow> Inl (SyntaxError ''Invalid regular expression'')
           | Some counters \<Rightarrow> Inr (map (\<lambda>h. with_score h (relevance counters h)) results))"

text \<open>
  Lines 146 to 199 of \<open>fallbackTextSearch\<close>: the keyword tier.  \<open>Array.prototype.sort\<close> is
  stable; the comparison \<open>b.score - a.score\<close> orders by descending score.
\<close>

definition regex_tier :: "'v chunks_db \<Rightarrow> string \<Rightarrow> string \<Rightarrow> search_options \<Rightarrow> js_error + passage list" where
  "regex_tier db tid queryText options =
     (let n = (case limit options of None \<Rightarrow> VECTOR_SEARCH_limit | Some m \<Rightarrow> m);
          keywords = keywords_of queryText
      in case regex_find db tid keywords n (opt_sectionType options) of
           Inl e \<Rightarrow> Inl e
         | Inr results \<Rightarrow>
            (case score_results (engines db) keywords results of
               Inl e \<Rightarrow> Inl e
             | Inr scoredResults \<Rightarrow>
                 Inr (take n (sort_key (\<lambda>r. - score r)
                                  (filter (\<lambda>r. score r > 1 / 10) scoredResults)))))"

text \<open>
  \<open>fallbackTextSearch\<close>: the text tier in its own \<open>try\<close>, whose error is only logged;
  then the keyword tier; and around both the outer \<open>try\<close>, whose \<open>catch\<close> logs the error
  and returns the empty array.
\<close>

definition fallback_body :: "'v chunks_db \<Rightarrow> string \<Rightarrow> string \<Rightarrow> search_options \<Rightarrow> js_error + passage list" where
  "fallback_body db tid queryText options =
     (case text_tier db tid queryText options of
        Inr results \<Rightarrow>
          if length results > 0 then Inr results else regex_tier db tid queryText options
      | Inl textSearchError \<Rightarrow> regex_tier db tid queryText options)"

definition fallbackTextSearch :: "'v chunks_db \<Rightarrow> string \<Rightarrow> string \<Rightarrow> search_options \<Rightarrow> js_error + passage list" where
  "fallbackTextSearch db tid queryText options =
     (case fallback_body db tid queryText options of
        Inl err \<Rightarrow> Inr []
      | Inr results \<Rightarrow> Inr results)"

text \<open>
  \<open>search\<close>: the vector tier inside \<open>try\<close>; an empty result falls back inside the \<open>try\<close>, an
  error falls back from the \<open>catch\<close>.
\<close>

definition search_body :: "'v chunks_db \<Rightarrow> string \<Rightarrow> string \<Rightarrow> search_options \<Rightarrow> js_error + passage list" where
  "search_body db tid queryText options =
     (case vector_tier db tid queryText options of
        Inl e \<Rightarrow> Inl e
      | Inr results \<Rightarrow>
          if length results = 0 then fallbackTextSearch db tid queryText options
          else Inr results)"

definition search :: "'v chunks_db \<Rightarrow> string \<Rightarrow> string \<Rightarrow> search_options \<Rightarrow> js_error + passage list" where
  "search db tid queryText options =
     (case search_body db tid queryText options of
        Inl err \<Rightarrow> fallbackTextSearch db tid queryText options
      | Inr results \<Rightarrow> Inr results)"

text \<open>
  The occurrence of a keyword in a text, up to case, as the specification speaks of
  it: the lower-cased keyword is a contiguous part of the lower-cased text.
\<close>

definition occurs_in :: "string \<Rightarrow> string \<Rightarrow> bool" where
  "occurs_in k s = sublist (toLowerCase k) (toLowerCase s)"

text \<open>A collection and options for concrete evaluations; both indexes are unavailable.\<close>

definition no_engines :: regex_engines where
  "no_engines = \<lparr>pcre_test = (\<lambda>k. None), js_count = (\<lambda>k. None)\<rparr>"

definition keyword_only_db :: "unit chunk list \<Rightarrow> unit chunks_db" where
  "keyword_only_db cs =
     \<lparr>vector_tier = (\<lambda>tid q opts. Inl (MongoError ''$vectorSearch is not allowed'')),
      text_tier = (\<lambda>tid q opts. Inl (MongoError ''text index required for $text query'')),
      collection = cs, find_error = None, engines = no_engines\<rparr>"

definition example_chunk :: "string \<Rightarrow> string \<Rightarrow> string \<Rightarrow> unit chunk" where
  "example_chunk cid title txt =
     \<lparr>chunk_tenantId = ''ten_a'', chunk_sectionId = ''sec_1'', chunkId = cid,
      sectionType = ''policy'', sectionTitle = title, chunk_text = txt, embedding = (),
      position = 0\<rparr>"

definition default_options :: search_options where
  "default_options = \<lparr>limit = None, minScore = None, opt_sectionType = None\<rparr>"

text \<open>
  The score that the specification gives to a passage: 0.15 for every occurrence of
  every keyword, up to case, in the text followed by a space and the title, capped at
  1.  An occurrence is a position at which the keyword begins.
\<close>

definition occurrences :: "string \<Rightarrow> string \<Rightarrow> nat" where
  "occurrences k s =
     length (filter (\<lambda>i. prefix (toLowerCase k) (drop i (toLowerCase s))) [0 ..< Suc (length s)])"

definition spec_score :: "string list \<Rightarrow> string \<Rightarrow> string \<Rightarrow> rat" where
  "spec_score keywords txt title =
     min 1 ((15 / 100) * of_nat (sum_list (map (\<lambda>k. occurrences k (txt @ '' '' @ title)) keywords)))"

text \<open>
  Engines for a query with the keyword \<open>c++\<close>: the database's engine reads it as \<open>c\<close>
  with a possessive quantifier, the host language's rejects it (nothing to repeat).
\<close>

definition c_plus_plus_engines :: regex_engines where
  "c_plus_plus_engines =
     \<lparr>pcre_test = (\<lambda>k. if k = ''c++'' then Some (match_anywhere pcre_terminators [Lit CHR ''c''])
                         else None),
      js_count = (\<lambda>k. None)\<rparr>"

text \<open>A database whose text index answers every query with the given hits.\<close>

definition text_index_db :: "passage list \<Rightarrow> unit chunks_db" where
  "text_index_db hits =
     \<lparr>vector_tier = (\<lambda>tid q opts. Inr []),
      text_tier = (\<lambda>tid q opts. Inr hits),
      collection = [], find_error = None, engines = no_engines\<rparr>"

definition returns_chunk :: "unit chunk" where
  "returns_chunk = example_chunk ''chk_1'' ''Returns'' ''free returns''"

section \<open>Ingestion (services/data.service.js)\<close>

text \<open>
  A section as submitted, and the section document stored for it.  (\<open>metadata\<close> and the
  two dates are carried along and never inspected; they are left out.)
\<close>

record section_input =
  in_type :: string
  in_title :: string
  in_content :: string

record section_doc =
  section_tenantId :: string
  sectionId :: string
  section_type :: string
  title :: string
  content :: string
  chunkCount :: nat
  status :: string

record section_result =
  res_sectionId :: string
  res_type :: string
  res_title :: string
  res_chunkCount :: nat
  res_status :: string

record register_result =
  sectionsCreated :: nat
  chunksCreated :: nat
  result_sections :: "section_result list"

text \<open>
  The two collections, in insertion order.  \<open>db_faults\<close> schedules the commands sent to
  the database as \<open>faults\<close> does for the counter store: each command takes the head, and
  is rejected when the head is \<open>True\<close>; a rejected command changes nothing.  \<open>drawn\<close>
  counts the identifiers drawn so far from the generator.
\<close>

record 'v data_store =
  sections :: "section_doc list"
  chunks :: "'v chunk list"
  db_faults :: "bool list"
  drawn :: nat

text \<open>
  The collaborators of the data service: \<open>nanoid\<close> gives the \<open>n\<close>-th identifier that
  the generator draws, and \<open>generateMockEmbedding\<close> the vector of a text.
\<close>

record 'v services =
  nanoid :: "nat \<Rightarrow> string"
  generateMockEmbedding :: "string \<Rightarrow> 'v"

definition db_command :: "'v data_store \<Rightarrow> bool \<times> 'v data_store" where
  "db_command s = (case db_faults s of [] \<Rightarrow> (False, s) | b # fs \<Rightarrow> (b, s\<lparr>db_faults := fs\<rparr>))"

definition countDocuments :: "string \<Rightarrow> 'v data_store \<Rightarrow> (js_error + nat) \<times> 'v data_store" where
  "countDocuments tid s =
     (case db_command s of
        (True, s') \<Rightarrow> (Inl (MongoError ''countDocuments failed''), s')
      | (False, s') \<Rightarrow> (Inr (length (filter (\<lambda>d. section_tenantId d = tid) (sections s'))), s'))"

definition insertOne :: "section_doc \<Rightarrow> 'v data_store \<Rightarrow> (js_error + unit) \<times> 'v data_store" where
  "insertOne d s =
     (case db_command s of
        (True, s') \<Rightarrow> (Inl (MongoError ''insertOne failed''), s')
      | (False, s') \<Rightarrow> (Inr (), s'\<lparr>sections := sections s' @ [d]\<rparr>))"

definition insertMany :: "'v chunk list \<Rightarrow> 'v data_store \<Rightarrow> (js_error + unit) \<times> 'v data_store" where
  "insertMany ds s =
     (case db_command s of
        (True, s') \<Rightarrow> (Inl (MongoError ''insertMany failed''), s')
      | (False, s') \<Rightarrow> (Inr (), s'\<lparr>chunks := chunks s' @ ds\<rparr>))"

text \<open>\<open>getSection\<close>: \<open>findOne\<close> by tenant and section identifier.\<close>

definition getSection :: "string \<Rightarrow> string \<Rightarrow> 'v data_store \<Rightarrow> (js_error + section_doc) \<times> 'v data_store" where
  "getSection tid sid s =
     (case db_command s of
        (True, s') \<Rightarrow> (Inl (MongoError ''findOne failed''), s')
      | (False, s') \<Rightarrow>
          (case find (\<lambda>d. section_tenantId d = tid \<and> sectionId d = sid) (sections s') of
             None \<Rightarrow> (Inl (Error ''Section not found''), s')
           | Some d \<Rightarrow> (Inr d, s')))"

definition generateId_section :: "'v services \<Rightarrow> 'v data_store \<Rightarrow> string \<times> 'v data_store" where
  "generateId_section svc s = (''sec_'' @ nanoid svc (drawn s), s\<lparr>drawn := Suc (drawn s)\<rparr>)"

text \<open>
  \<open>chunks.map((text, index) => ...)\<close>: one chunk document per chunk, each with a fresh
  identifier, the embedding of the same index and the index as its position.  The
  embeddings are \<open>generateEmbeddings(chunks)\<close>, which maps \<open>generateMockEmbedding\<close> over
  the chunks whether or not the mock is switched on.
\<close>

definition chunkDocs ::
  "'v services \<Rightarrow> string \<Rightarrow> string \<Rightarrow> section_input \<Rightarrow> string list \<Rightarrow> 'v data_store
     \<Rightarrow> 'v chunk list \<times> 'v data_store" where
  "chunkDocs svc tid sid sec cks s =
     (map (\<lambda>index.
         \<lparr>chunk_tenantId = tid, chunk_sectionId = sid,
          chunkId = ''chk_'' @ nanoid svc (drawn s + index),
          sectionType = in_type sec, sectionTitle = in_title sec,
          chunk_text = cks ! index,
          embedding = map (generateMockEmbedding svc) cks ! index,
          position = index\<rparr>)
        [0 ..< length cks],
      s\<lparr>drawn := drawn s + length cks\<rparr>)"

text \<open>
  The body of the loop over the submitted sections.  The result is \<open>None\<close> when the call
  of \<open>chunkText\<close> does not return; otherwise the error thrown or the entry pushed to
  \<open>results\<close> with the number of chunks, and the store.
\<close>

definition register_section ::
  "'v services \<Rightarrow> string \<Rightarrow> section_input \<Rightarrow> 'v data_store
     \<Rightarrow> ((js_error + section_result \<times> nat) \<times> 'v data_store) option" where
  "register_section svc tid sec s =
     (if length (js_trim (in_content sec)) = 0
      then Some (Inl (Error (''Section \"'' @ in_title sec @ ''\" has empty content'')), s)
      else
       (case generateId_section svc s of (sid, s1) \<Rightarrow>
        (case chunkText (in_content sec) CHUNK_CONFIG_size CHUNK_CONFIG_overlap of
           None \<Rightarrow> None
         | Some cks \<Rightarrow>
            if length cks = 0
            then Some (Inl (Error (''Section \"'' @ in_title sec
                    @ ''\" produced no chunks. Content may be too short or invalid.'')), s1)
            else
             (case insertOne
                     \<lparr>section_tenantId = tid, sectionId = sid, section_type = in_type sec,
                      title = in_title sec, content = in_content sec,
                      chunkCount = length cks, status = ''completed''\<rparr> s1 of
                (Inl e, s2) \<Rightarrow> Some (Inl e, s2)
              | (Inr u, s2) \<Rightarrow>
                 (case chunkDocs svc tid sid sec cks s2 of (docs, s3) \<Rightarrow>
                  (case (if length docs > 0 then insertMany docs s3 else (Inr (), s3)) of
                     (Inl e, s4) \<Rightarrow> Some (Inl e, s4)
                   | (Inr u, s4) \<Rightarrow>
                      Some (Inr (\<lparr>res_sectionId = sid, res_type = in_type sec,
                                  res_title = in_title sec, res_chunkCount = length cks,
                                  res_status = ''completed''\<rparr>, length cks), s4)))))))"

fun register_loop ::
  "'v services \<Rightarrow> string \<Rightarrow> section_input list \<Rightarrow> section_result list \<Rightarrow> nat \<Rightarrow> 'v data_store
     \<Rightarrow> ((js_error + section_result list \<times> nat) \<times> 'v data_store) option" where
  "register_loop svc tid [] results totalChunks s = Some (Inr (results, totalChunks), s)"
| "register_loop svc tid (sec # rest) results totalChunks s =
     (case register_section svc tid sec s of
        None \<Rightarrow> None
      | Some (Inl e, s') \<Rightarrow> Some (Inl e, s')
      | Some (Inr (res, n), s') \<Rightarrow>
          register_loop svc tid rest (results @ [res]) (totalChunks + n) s')"

text \<open>
  \<open>registerData(tenantId, sections, limits)\<close>.  The \<open>catch\<close> of the method logs the error
  and throws it again, so an error of the body is the error of the call.
\<close>

definition registerData ::
  "'v services \<Rightarrow> string \<Rightarrow> section_input list \<Rightarrow> limits \<Rightarrow> 'v data_store
     \<Rightarrow> ((js_error + register_result) \<times> 'v data_store) option" where
  "registerData svc tid secs lims s =
     (case countDocuments tid s of
        (Inl e, s1) \<Rightarrow> Some (Inl e, s1)
      | (Inr currentCount, s1) \<Rightarrow>
          if currentCount + length secs > sectionsPerTenant lims
          then Some (Inl (Error (''Section limit exceeded. Your plan allows ''
                  @ show_nat (sectionsPerTenant lims) @ '' sections. Current: ''
                  @ show_nat currentCount @ '', Attempting to add: ''
                  @ show_nat (length secs))), s1)
          else
           (case register_loop svc tid secs [] 0 s1 of
              None \<Rightarrow> None
            | Some (Inl e, s2) \<Rightarrow> Some (Inl e, s2)
            | Some (Inr (results, totalChunks), s2) \<Rightarrow>
                Some (Inr \<lparr>sectionsCreated = length secs, chunksCreated = totalChunks,
                           result_sections = results\<rparr>, s2)))"

text \<open>
  A section passes the two checks of the loop body: its content is not blank and its
  chunking is not empty.
\<close>

definition accepted :: "section_input \<Rightarrow> bool" where
  "accepted sec =
     (length (js_trim (in_content sec)) \<noteq> 0
      \<and> (case chunkText (in_content sec) CHUNK_CONFIG_size CHUNK_CONFIG_overlap of
           Some (c # cs) \<Rightarrow> True | _ \<Rightarrow> False))"

text \<open>Collaborators, an empty store and two submitted sections for concrete evaluations.\<close>

definition example_services :: "unit services" where
  "example_services = \<lparr>nanoid = show_nat, generateMockEmbedding = (\<lambda>t. ())\<rparr>"

definition empty_store :: "unit data_store" where
  "empty_store = \<lparr>sections = [], chunks = [], db_faults = [], drawn = 0\<rparr>"

definition returns_policy :: section_input where
  "returns_policy = \<lparr>in_type = ''policy'', in_title = ''Returns'',
     in_content = ''Returns are accepted within 30 days''\<rparr>"

definition blank_section :: section_input where
  "blank_section = \<lparr>in_type = ''general'', in_title = ''Blank'',
     in_content = ''          ''\<rparr>"

text \<open>
  A submitted section is stored as a section document with its chunk rows: the
  document carries the tenant, type, title and content of the section, its \<open>chunkCount\<close>
  is the number of the rows, there is at least one row, and every row carries the
  tenant and the identifier of the section.
\<close>

definition stored_as :: "string \<Rightarrow> section_input \<Rightarrow> section_doc \<times> 'v chunk list \<Rightarrow> bool" where
  "stored_as tid sec created =
     (case created of (doc, rows) \<Rightarrow>
        section_tenantId doc = tid \<and> section_type doc = in_type sec
      \<and> title doc = in_title sec \<and> content doc = in_content sec
      \<and> chunkCount doc = length rows \<and> rows \<noteq> []
      \<and> list_all (\<lambda>c. chunk_sectionId c = sectionId doc \<and> chunk_tenantId c = tid) rows)"

section \<open>Properties of the chunker\<close>

lemma split_ws_nonempty: "split_ws s \<noteq> []"
  by (induction s rule: split_ws.induct) (auto split: list.splits)

lemma ws_tokens_dropWhile: "ws_tokens (dropWhile is_ws s) = ws_tokens s"
  by (induction s) auto

lemma split_ws_tokens:
  "split_ws s = (if s \<noteq> [] \<and> is_ws (hd s) then [[]] else []) @ ws_tokens s
      @ (if s = [] \<or> is_ws (last s) then [[]] else [])"
proof (induction s rule: split_ws.induct)
  case 1
  show ?case by simp
next
  case (2 c cs)
  show ?case
  proof (cases "is_ws c")
    case True
    let ?r = "dropWhile is_ws cs"
    have hd: "?r \<noteq> [] \<Longrightarrow> \<not> is_ws (hd ?r)" by (rule hd_dropWhile)
    have tl: "(?r = [] \<or> is_ws (last ?r)) = is_ws (last (c # cs))"
    proof (cases "?r = []")
      case True
      then have "\<forall>x\<in>set cs. is_ws x" by (simp add: dropWhile_eq_Nil_conv)
      with \<open>is_ws c\<close> True show ?thesis by (cases cs) auto
    next
      case False
      then have "cs \<noteq> []" by auto
      moreover have "last ?r = last cs"
        using False by (metis last_appendR takeWhile_dropWhile_id)
      ultimately show ?thesis using False by auto
    qed
    from 2(1)[OF True] hd tl True show ?thesis
      by (auto simp: ws_tokens_dropWhile)
  next
    case False
    from 2(2)[OF False] False show ?thesis
      by (cases cs) (auto split: list.splits)
  qed
qed

lemma js_slice_window:
  assumes "0 \<le> w"
  shows "js_slice xs (int i) (int i + w) = take (nat w) (drop i xs)"
proof -
  obtain m where w: "w = int m" using assms by (metis nat_0_le)
  show ?thesis
  proof (cases "i \<le> length xs")
    case True
    then have "nat (min (int i + int m) (int (length xs)) - int i) = min m (length xs - i)"
      by (auto simp: min_def)
    with True show ?thesis
      by (simp add: js_slice_def Let_def w min_def)
  next
    case False
    then show ?thesis by (simp add: js_slice_def Let_def w)
  qed
qed

lemma upt_split: "a \<le> m \<Longrightarrow> m \<le> n \<Longrightarrow> [a ..< n] = [a ..< m] @ [m ..< n]"
  by (metis le_Suc_ex upt_add_eq_append)

lemma starts_step:
  assumes "0 < step" "step dvd i" "i < n"
  shows "filter (\<lambda>j. step dvd j) [i ..< n] = i # filter (\<lambda>j. step dvd j) [i + step ..< n]"
proof -
  let ?m = "min (i + step) n"
  have none: "filter (\<lambda>j. step dvd j) [Suc i ..< ?m] = []"
  proof -
    { fix j assume j: "Suc i \<le> j" "j < i + step" "step dvd j"
      from assms(2) j(3) have "step dvd (j - i)" by (simp add: dvd_diff_nat)
      moreover from j have "0 < j - i" "j - i < step" by auto
      ultimately have False by (auto dest: dvd_imp_le) }
    then show ?thesis by (auto simp: filter_empty_conv)
  qed
  have "[i ..< n] = i # [Suc i ..< n]"
    using assms(3) by (simp add: upt_conv_Cons)
  also have "[Suc i ..< n] = [Suc i ..< ?m] @ [?m ..< n]"
    using assms(1,3) by (intro upt_split) auto
  finally have "filter (\<lambda>j. step dvd j) [i ..< n] = i # filter (\<lambda>j. step dvd j) [?m ..< n]"
    using none assms(2) by simp
  moreover have "filter (\<lambda>j. step dvd j) [?m ..< n] = filter (\<lambda>j. step dvd j) [i + step ..< n]"
    by (simp add: min_def)
  ultimately show ?thesis by simp
qed

lemma chunkText_loop_windows:
  assumes "0 \<le> w" "ov < w"
  shows "nat (w - ov) dvd i \<Longrightarrow>
     chunkText_loop words w ov (int i) acc =
       Some (acc @ filter (\<lambda>s. s \<noteq> []) (map (window_at words w)
               (filter (\<lambda>j. nat (w - ov) dvd j) [i ..< length words])))"
proof (induction "length words - i" arbitrary: i acc rule: less_induct)
  case less
  let ?step = "nat (w - ov)"
  have step: "0 < ?step" "int ?step = w - ov" using assms by auto
  show ?case
  proof (cases "i < length words")
    case False
    then show ?thesis by (subst chunkText_loop.simps) simp
  next
    case True
    have nxt: "int i + (w - ov) = int (i + ?step)" using step by simp
    have dv: "?step dvd (i + ?step)" using less.prems by simp
    have m: "length words - (i + ?step) < length words - i" using True step by linarith
    show ?thesis
      apply (subst chunkText_loop.simps)
      apply (simp only: nxt)
      apply (subst less.hyps[OF m dv])
      using True apply (simp add: starts_step[OF step(1) less.prems True] js_slice_window[OF assms(1)] window_at_def)
      done
  qed
qed

lemma js_join_snoc_empty: "xs \<noteq> [] \<Longrightarrow> js_join (xs @ [[]]) = js_join xs @ '' ''"
  by (induction xs rule: js_join.induct) auto

lemma dropWhile_all: "\<forall>x\<in>set s. P x \<Longrightarrow> dropWhile P s = []"
  by (induction s) auto

lemma js_trim_snoc_space: "js_trim (s @ '' '') = js_trim s"
proof -
  have sp: "is_ws CHR '' ''" by (simp add: is_ws_def)
  show ?thesis
  proof (cases "\<forall>c\<in>set s. is_ws c")
    case True
    have a: "dropWhile is_ws s = []"
      using True by (rule dropWhile_all)
    have b: "dropWhile is_ws (s @ '' '') = []"
      by (rule dropWhile_all) (use True sp in auto)
    show ?thesis unfolding js_trim_def a b ..
  next
    case False
    then have "dropWhile is_ws (s @ '' '') = dropWhile is_ws s @ '' ''"
      by (auto simp: dropWhile_append1)
    with sp show ?thesis by (simp add: js_trim_def)
  qed
qed

lemma window_at_snoc_empty:
  "i < length toks \<Longrightarrow> window_at (toks @ [[]]) w i = window_at toks w i"
proof -
  assume i: "i < length toks"
  show ?thesis
  proof (cases "nat w \<le> length toks - i")
    case True
    then show ?thesis using i by (simp add: window_at_def)
  next
    case False
    then have "take (nat w) (drop i (toks @ [[]])) = drop i toks @ [[]]"
      and "take (nat w) (drop i toks) = drop i toks"
      using i by auto
    moreover have "drop i toks \<noteq> []" using i by simp
    ultimately show ?thesis
      by (simp add: window_at_def js_join_snoc_empty js_trim_snoc_space)
  qed
qed

lemma window_at_end_empty: "window_at (toks @ [[]]) w (length toks) = []"
  by (cases "nat w") (simp_all add: window_at_def js_trim_def)

lemma windows_snoc_empty:
  "filter (\<lambda>s. s \<noteq> []) (map (window_at (toks @ [[]]) w) (filter (\<lambda>j. d dvd j) [0 ..< length (toks @ [[]])]))
   = filter (\<lambda>s. s \<noteq> []) (map (window_at toks w) (filter (\<lambda>j. d dvd j) [0 ..< length toks]))"
proof -
  have "map (window_at (toks @ [[]]) w) (filter (\<lambda>j. d dvd j) [0 ..< length toks])
      = map (window_at toks w) (filter (\<lambda>j. d dvd j) [0 ..< length toks])"
    by (rule map_cong) (auto simp: window_at_snoc_empty)
  moreover have "[0 ..< length (toks @ [[]])] = [0 ..< length toks] @ [length toks]"
    by simp
  ultimately show ?thesis
    by (simp only: filter_append map_append) (simp add: window_at_end_empty)
qed

lemma split_ws_no_leading:
  "text = [] \<or> \<not> is_ws (hd text) \<Longrightarrow>
     split_ws text = ws_tokens text \<or> split_ws text = ws_tokens text @ [[]]"
  using split_ws_tokens[of "text"] by auto

text \<open>
  Claim C9, as amended.  For every text and every window size \<open>windowSize \<ge> 0\<close> with
  \<open>windowSize > overlap\<close>, \<open>chunkText\<close> returns, and its result is the sliding-window
  reference over the pieces into which \<open>split\<close> cuts the text at its runs of white
  space: one window per start index \<open>0, windowSize - overlap, 2 \<sqdot> (windowSize - overlap), \<dots>\<close>
  below the number of pieces, each of up to \<open>windowSize\<close> consecutive pieces joined by
  single spaces and trimmed, empty windows omitted.  The pieces are the words of the
  text, with an empty piece in front when the text begins with white space and one
  behind when it ends with white space or is empty.  When the text does not begin with white
  space, the result is the sliding-window reference over the words themselves.  Every
  emitted span is non-empty.  The result is a function of the three arguments alone,
  so a second call on the same arguments yields the same sequence.
\<close>

theorem chunkText_sliding_window:
  assumes "overlap < windowSize" and "0 \<le> windowSize"
  shows "chunkText text windowSize overlap
           = Some (sliding_windows (split_ws text) windowSize overlap)
         \<and> (text = [] \<or> \<not> is_ws (hd text) \<longrightarrow>
              chunkText text windowSize overlap
                = Some (sliding_windows (ws_tokens text) windowSize overlap))
         \<and> (\<forall>s \<in> set (sliding_windows (split_ws text) windowSize overlap). s \<noteq> [])
         \<and> split_ws text
             = (if text \<noteq> [] \<and> is_ws (hd text) then [[]] else []) @ ws_tokens text
               @ (if text = [] \<or> is_ws (last text) then [[]] else [])"
proof -
  have spec: "sliding_windows toks windowSize overlap =
      filter (\<lambda>s. s \<noteq> []) (map (window_at toks windowSize)
               (filter (\<lambda>j. nat (windowSize - overlap) dvd j) [0 ..< length toks]))" for toks
    by (simp add: sliding_windows_def window_starts_def window_at_def[abs_def])
  have pieces: "chunkText text windowSize overlap
                  = Some (sliding_windows (split_ws text) windowSize overlap)"
    unfolding chunkText_def spec
    using chunkText_loop_windows[OF assms(2,1), of 0 "split_ws text" "[]"] by simp
  have "chunkText text windowSize overlap
          = Some (sliding_windows (ws_tokens text) windowSize overlap)"
    if "text = [] \<or> \<not> is_ws (hd text)"
    using split_ws_no_leading[OF that]
  proof
    assume "split_ws text = ws_tokens text"
    then show ?thesis by (simp add: pieces)
  next
    assume "split_ws text = ws_tokens text @ [[]]"
    then show ?thesis by (simp only: pieces spec windows_snoc_empty)
  qed
  moreover have "\<forall>s \<in> set (sliding_windows (split_ws text) windowSize overlap). s \<noteq> []"
    by (simp add: sliding_windows_def)
  ultimately show ?thesis using pieces split_ws_tokens[of "text"] by blast
qed

theorem chunkText_sliding_window_witness:
  "(1::int) < 3 \<and> (0::int) \<le> 3 \<and> \<not> is_ws (hd ''a b c d e f g '')
   \<and> chunkText ''a b c d e f g '' 3 1 = Some [''a b c'', ''c d e'', ''e f g'', ''g'']
   \<and> sliding_windows (ws_tokens ''a b c d e f g '') 3 1 = [''a b c'', ''c d e'', ''e f g'', ''g'']"
  using chunkText_sliding_window[of 1 3 "''a b c d e f g ''"]
  by (simp add: sliding_windows_def window_starts_def js_trim_def is_ws_def)

text \<open>
  The claim as stated, for every text and every \<open>windowSize > overlap\<close>, fails in two
  ways.  A negative window size makes the end index of \<open>slice\<close> count from the end of
  the array, so that windows appear where the reference has none, whichever way the
  tokens are read.  And when the tokens of the reference are the words of the text, a
  text that begins with white space fails: \<open>split\<close> returns an empty first string, which
  takes the place of a word in the first window and shifts every later window.
\<close>

theorem chunkText_sliding_window_counterexample:
  "chunkText ''a b c'' (- 1) (- 2) = Some [''a b'']
   \<and> sliding_windows (split_ws ''a b c'') (- 1) (- 2) = []
   \<and> sliding_windows (ws_tokens ''a b c'') (- 1) (- 2) = []
   \<and> chunkText '' a b c'' 2 0 = Some [''a'', ''b c'']
   \<and> sliding_windows (ws_tokens '' a b c'') 2 0 = [''a b'', ''c'']"
  by (simp add: chunkText_def chunkText_loop.simps js_slice_def sliding_windows_def
                window_starts_def js_trim_def is_ws_def)

lemma chunkText_loop_terminates:
  "ov < cs \<Longrightarrow> \<exists>r. chunkText_loop words cs ov i acc = Some r"
proof (induction "nat (int (length words) - i)" arbitrary: i acc rule: less_induct)
  case less
  show ?case
  proof (cases "i < int (length words)")
    case False
    then show ?thesis by (subst chunkText_loop.simps) simp
  next
    case True
    with less.prems have "nat (int (length words) - (i + (cs - ov))) < nat (int (length words) - i)"
      by linarith
    from less.hyps[OF this less.prems] True show ?thesis
      by (subst chunkText_loop.simps) simp
  qed
qed

lemma chunkText_loop_stuck:
  assumes ret: "chunkText_loop words cs ov i acc = Some r"
  shows "cs \<le> ov \<longrightarrow> int (length words) \<le> i"
proof (rule chunkText_loop.raw_induct
         [where P = "\<lambda>words cs ov i acc r. cs \<le> ov \<longrightarrow> int (length words) \<le> i", OF _ ret],
       rule impI)
  fix loop :: "string list \<Rightarrow> int \<Rightarrow> int \<Rightarrow> int \<Rightarrow> string list \<Rightarrow> string list option"
    and words cs ov i acc r
  assume IH: "\<And>words cs ov i acc r. loop words cs ov i acc = Some r \<Longrightarrow> cs \<le> ov \<longrightarrow> int (length words) \<le> i"
    and body: "(if i < int (length words)
      then loop words cs ov (i + (cs - ov))
             (if length (js_trim (js_join (js_slice words i (i + cs)))) > 0
              then acc @ [js_trim (js_join (js_slice words i (i + cs)))]
              else acc)
      else Some acc) = Some r"
    and le: "cs \<le> ov"
  show "int (length words) \<le> i"
  proof (rule ccontr)
    assume "\<not> int (length words) \<le> i"
    then have i: "i < int (length words)" by simp
    with body obtain acc' where "loop words cs ov (i + (cs - ov)) acc' = Some r"
      by (auto split: if_splits)
    from IH[OF this] le i show False by simp
  qed
qed

lemma chunkText_loop_diverges:
  "cs \<le> ov \<Longrightarrow> i < int (length words) \<Longrightarrow> chunkText_loop words cs ov i acc = None"
  using chunkText_loop_stuck[of words cs ov i acc] by (cases "chunkText_loop words cs ov i acc") auto

text \<open>
  Claim C10.  \<open>chunkText\<close> returns whenever \<open>overlap < chunkSize\<close>: every iteration moves
  the loop index up by \<open>chunkSize - overlap > 0\<close>, and the index passes the number of
  words.  When \<open>overlap \<ge> chunkSize\<close> the index never moves up, and the call does not
  return: the array that \<open>split\<close> returns is never empty (\<open>split_ws_nonempty\<close>), so the
  loop is entered for every text, with or without a token.  The configuration passed
  at the call sites, size 500 and overlap 50, satisfies the precondition, so the calls
  made by the data service return.
\<close>

theorem chunkText_total_iff:
  "(overlap < chunkSize \<longrightarrow> (\<exists>cks. chunkText text chunkSize overlap = Some cks))
   \<and> (chunkSize \<le> overlap \<longrightarrow> chunkText text chunkSize overlap = None)
   \<and> (i < int (length words) \<longrightarrow>
        (\<exists>acc'. chunkText_loop words chunkSize overlap i acc
           = chunkText_loop words chunkSize overlap (i + (chunkSize - overlap)) acc'))
   \<and> CHUNK_CONFIG_overlap < CHUNK_CONFIG_size
   \<and> (\<exists>cks. chunkText text CHUNK_CONFIG_size CHUNK_CONFIG_overlap = Some cks)"
proof -
  have ret: "ov < cs \<Longrightarrow> \<exists>cks. chunkText text cs ov = Some cks" for cs ov
    unfolding chunkText_def by (rule chunkText_loop_terminates)
  have "chunkSize \<le> overlap \<Longrightarrow> chunkText text chunkSize overlap = None"
    unfolding chunkText_def
    by (rule chunkText_loop_diverges) (use split_ws_nonempty[of "text"] in auto)
  moreover have "CHUNK_CONFIG_overlap < CHUNK_CONFIG_size"
    by (simp add: CHUNK_CONFIG_size_def CHUNK_CONFIG_overlap_def)
  moreover have "i < int (length words) \<Longrightarrow>
        \<exists>acc'. chunkText_loop words chunkSize overlap i acc
           = chunkText_loop words chunkSize overlap (i + (chunkSize - overlap)) acc'"
    by (subst chunkText_loop.simps) auto
  ultimately show ?thesis using ret by blast
qed

theorem chunkText_total_iff_witness:
  "(50::int) < 500 \<and> (\<exists>cks. chunkText ''free shipping'' 500 50 = Some cks)
   \<and> (50::int) \<le> 50 \<and> chunkText ''free shipping'' 50 50 = None"
  using chunkText_total_iff[of 50 500 "''free shipping''"] chunkText_total_iff[of 50 50 "''free shipping''"]
  by simp

section \<open>Properties of the quota middleware\<close>

lemma minuteKey_neq_hourKey: "minuteKey tid now \<noteq> hourKey tid now'"
  by (simp add: minuteKey_def hourKey_def)

lemma same_minute_keys:
  assumes "now div 60000 = now0 div 60000"
  shows "minuteKey tid now = minuteKey tid now0" and "hourKey tid now = hourKey tid now0"
proof -
  show "minuteKey tid now = minuteKey tid now0" using assms by (simp add: minuteKey_def)
  have "n div 3600000 = n div 60000 div 60" for n :: nat
    by (simp add: div_mult2_eq[symmetric])
  then show "hourKey tid now = hourKey tid now0" using assms by (simp add: hourKey_def)
qed

lemma rateLimiter_ok:
  assumes "redis_ok r" and "rateLimiter (Some t) now r = (out, r')"
  shows "redis_ok r'"
    and "counter r' (minuteKey (tenantId t) now) = counter r (minuteKey (tenantId t) now) + 1"
    and "counter r' (hourKey (tenantId t) now) =
           (if int (requestsPerMinute (tenant_limits t)) < counter r (minuteKey (tenantId t) now) + 1
            then counter r (hourKey (tenantId t) now)
            else counter r (hourKey (tenantId t) now) + 1)"
    and "sent out =
           (if int (requestsPerMinute (tenant_limits t)) < counter r (minuteKey (tenantId t) now) + 1
            then Some (minute_denied (tenant_limits t))
            else if int (requestsPerHour (tenant_limits t)) < counter r (hourKey (tenantId t) now) + 1
            then Some (hour_denied (tenant_limits t))
            else None)"
  using assms minuteKey_neq_hourKey[of "tenantId t" now now]
  by (auto simp: rateLimiter_def redis_incr_def redis_expire_def redis_ok_def counter_def
                 to_number_def Let_def
           split: if_splits option.splits prod.splits)

lemma rateLimiter_calls_nth:
  assumes "redis_ok r" and "\<forall>now \<in> set ts. now div 60000 = now0 div 60000" and "k < length ts"
  shows "sent (fst (rateLimiter_calls t ts r) ! k) =
           (if int (requestsPerMinute (tenant_limits t))
                 < counter r (minuteKey (tenantId t) now0) + int k + 1
            then Some (minute_denied (tenant_limits t))
            else if int (requestsPerHour (tenant_limits t))
                 < counter r (hourKey (tenantId t) now0) + int k + 1
            then Some (hour_denied (tenant_limits t))
            else None)"
  using assms
proof (induction ts arbitrary: r k)
  case Nil
  then show ?case by simp
next
  case (Cons now ts)
  obtain out r' where call: "rateLimiter (Some t) now r = (out, r')"
    by (cases "rateLimiter (Some t) now r")
  from Cons.prems(2) have keys: "minuteKey (tenantId t) now = minuteKey (tenantId t) now0"
      "hourKey (tenantId t) now = hourKey (tenantId t) now0"
    by (auto intro: same_minute_keys)
  note one = rateLimiter_ok[OF Cons.prems(1) call, unfolded keys]
  show ?case
  proof (cases k)
    case 0
    with call one(4) show ?thesis by (simp split: prod.splits)
  next
    case (Suc k')
    with Cons.prems have "k' < length ts" and "\<forall>now \<in> set ts. now div 60000 = now0 div 60000"
      by auto
    from Cons.IH[OF one(1) this(2,1)] one(2,3) call Suc show ?thesis
      by (auto split: prod.splits if_splits)
  qed
qed

text \<open>
  Claim C2, as amended.  A tenant makes a sequence of admission calls whose timestamps
  fall in one minute bucket; the store works, the calls are applied one after the
  other, and the minute counter is absent at the start.  Then the \<open>k\<close>-th call (counted
  from 1; index \<open>k - 1\<close> below) is denied with \<open>retryAfter = 60\<close> exactly when \<open>k\<close> exceeds
  \<open>requestsPerMinute\<close>: the decision is taken on the value of the minute counter after
  its increment.  A call with \<open>k \<le> requestsPerMinute\<close> goes on to the hour window: it is
  admitted when the hour counter after its increment, which is its value before the
  sequence plus \<open>k\<close>, does not exceed \<open>requestsPerHour\<close>, and is denied with
  \<open>retryAfter = 3600\<close> otherwise.
\<close>

theorem rateLimiter_minute_window:
  assumes "redis_ok r"
    and "\<forall>now \<in> set ts. now div 60000 = now0 div 60000"
    and "kv r (minuteKey (tenantId t) now0) = None"
    and "k < length ts"
  shows "(requestsPerMinute (tenant_limits t) < k + 1 \<longrightarrow>
            sent (fst (rateLimiter_calls t ts r) ! k) = Some (minute_denied (tenant_limits t)))
       \<and> (k + 1 \<le> requestsPerMinute (tenant_limits t) \<longrightarrow>
            sent (fst (rateLimiter_calls t ts r) ! k) =
              (if int (requestsPerHour (tenant_limits t))
                    < counter r (hourKey (tenantId t) now0) + int k + 1
               then Some (hour_denied (tenant_limits t)) else None))
       \<and> retryAfter (minute_denied (tenant_limits t)) = Some 60
       \<and> retryAfter (hour_denied (tenant_limits t)) = Some 3600"
proof -
  from assms(3) have "counter r (minuteKey (tenantId t) now0) = 0"
    by (simp add: counter_def)
  with rateLimiter_calls_nth[OF assms(1,2,4), of t] show ?thesis
    by (auto simp: minute_denied_def hour_denied_def)
qed


theorem rateLimiter_minute_window_witness:
  "redis_ok redis_empty
   \<and> kv redis_empty (minuteKey (tenantId tenant_free) 120000) = None
   \<and> (10::nat) < length (replicate 12 (120000::nat))
   \<and> requestsPerMinute (tenant_limits tenant_free) < 10 + 1
   \<and> sent (fst (rateLimiter_calls tenant_free (replicate 12 120000) redis_empty) ! 10)
        = Some (minute_denied (tenant_limits tenant_free))
   \<and> 9 + 1 \<le> requestsPerMinute (tenant_limits tenant_free)
   \<and> sent (fst (rateLimiter_calls tenant_free (replicate 12 120000) redis_empty) ! 9) = None"
  using rateLimiter_minute_window[of redis_empty "replicate 12 120000" 120000 tenant_free 10]
        rateLimiter_minute_window[of redis_empty "replicate 12 120000" 120000 tenant_free 9]
  by (simp add: redis_ok_def redis_empty_def tenant_free_def counter_def)

text \<open>
  The claim as stated admits the \<open>k\<close>-th call whenever \<open>k \<le> requestsPerMinute\<close>.  On the
  free plan (10 per minute, 100 per hour), with 100 calls already counted in the hour
  bucket, the first call of a fresh minute bucket is denied by the hour window.
\<close>

theorem rateLimiter_minute_window_counterexample:
  "redis_ok (redis_empty\<lparr>kv := [hourKey ''ten_a'' 120000 \<mapsto> 100]\<rparr>)
   \<and> kv (redis_empty\<lparr>kv := [hourKey ''ten_a'' 120000 \<mapsto> 100]\<rparr>) (minuteKey ''ten_a'' 120000) = None
   \<and> (1::nat) \<le> requestsPerMinute (tenant_limits tenant_free)
   \<and> sent (fst (rateLimiter_calls tenant_free [120000]
                   (redis_empty\<lparr>kv := [hourKey ''ten_a'' 120000 \<mapsto> 100]\<rparr>)) ! 0)
        = Some (hour_denied (tenant_limits tenant_free))
   \<and> retryAfter (hour_denied (tenant_limits tenant_free)) = Some 3600"
  by (simp add: redis_ok_def redis_empty_def tenant_free_def rateLimiter_def redis_incr_def
        redis_expire_def to_number_def minuteKey_def hourKey_def hour_denied_def)

text \<open>
  Claim C6.  On a working store, the monthly check reads the month counter (an absent
  key reading as 0) without incrementing it.  If the value read has reached
  \<open>apiCallsPerMonth\<close> the check denies, the response carries the usage read and the limit
  and no \<open>retryAfter\<close>, and the counters are left as they were.  Otherwise the check
  increments the month counter by exactly one and lets the request proceed.
\<close>

theorem checkMonthlyLimit_read_then_increment:
  assumes "redis_ok r"
  shows "(int (apiCallsPerMonth (tenant_limits t)) \<le> counter r (monthKey (tenantId t) currentMonth) \<longrightarrow>
            sent (fst (checkMonthlyLimit (Some t) currentMonth r))
              = Some (month_denied (tenant_limits t) (counter r (monthKey (tenantId t) currentMonth)))
          \<and> kv (snd (checkMonthlyLimit (Some t) currentMonth r)) = kv r)
       \<and> (counter r (monthKey (tenantId t) currentMonth) < int (apiCallsPerMonth (tenant_limits t)) \<longrightarrow>
            sent (fst (checkMonthlyLimit (Some t) currentMonth r)) = None
          \<and> kv (snd (checkMonthlyLimit (Some t) currentMonth r))
              = (kv r)(monthKey (tenantId t) currentMonth
                         \<mapsto> counter r (monthKey (tenantId t) currentMonth) + 1))
       \<and> usage (month_denied (tenant_limits t) c) = Some (c, apiCallsPerMonth (tenant_limits t))
       \<and> retryAfter (month_denied (tenant_limits t) c) = None"
  using assms
  by (auto simp: checkMonthlyLimit_def redis_get_def redis_incr_def redis_expire_def redis_ok_def
                 counter_def month_denied_def proceed_def Let_def
           split: option.splits prod.splits if_splits)

theorem checkMonthlyLimit_read_then_increment_witness:
  "redis_ok (redis_empty\<lparr>kv := [monthKey ''ten_a'' ''2026-11'' \<mapsto> 1000]\<rparr>)
   \<and> int (apiCallsPerMonth (tenant_limits tenant_free))
        \<le> counter (redis_empty\<lparr>kv := [monthKey ''ten_a'' ''2026-11'' \<mapsto> 1000]\<rparr>)
             (monthKey (tenantId tenant_free) ''2026-11'')
   \<and> sent (fst (checkMonthlyLimit (Some tenant_free) ''2026-11''
                  (redis_empty\<lparr>kv := [monthKey ''ten_a'' ''2026-11'' \<mapsto> 1000]\<rparr>)))
        = Some (month_denied (tenant_limits tenant_free) 1000)
   \<and> redis_ok redis_empty
   \<and> counter redis_empty (monthKey (tenantId tenant_free) ''2026-11'')
        < int (apiCallsPerMonth (tenant_limits tenant_free))
   \<and> sent (fst (checkMonthlyLimit (Some tenant_free) ''2026-11'' redis_empty)) = None
   \<and> kv (snd (checkMonthlyLimit (Some tenant_free) ''2026-11'' redis_empty))
        (monthKey ''ten_a'' ''2026-11'') = Some 1"
  using checkMonthlyLimit_read_then_increment
          [of "redis_empty\<lparr>kv := [monthKey ''ten_a'' ''2026-11'' \<mapsto> 1000]\<rparr>" tenant_free "''2026-11''"]
        checkMonthlyLimit_read_then_increment [of redis_empty tenant_free "''2026-11''"]
  by (simp add: redis_ok_def redis_empty_def tenant_free_def counter_def monthKey_def)

text \<open>
  Claim C7, as amended.  The store's wrapper turns every failure into \<open>null\<close>, so neither
  check can raise.  When the store is unavailable, that is, it is not connected or both
  increments of the call fail, \<open>rateLimiter\<close> lets the request proceed.  When the read of
  the month counter fails, \<open>checkMonthlyLimit\<close> lets the request proceed, for a tenant
  with a positive \<open>apiCallsPerMonth\<close> (every plan has one).  A failed minute increment
  never produces the minute denial.  A single failed operation disables only the check
  that depends on it: the other window is still enforced.
\<close>

theorem quota_fail_open:
  "(fails_next 2 r \<longrightarrow> sent (fst (rateLimiter tn now r)) = None)
   \<and> (fails_next 1 r \<and> 0 < apiCallsPerMonth (tenant_limits t) \<longrightarrow>
        sent (fst (checkMonthlyLimit (Some t) currentMonth r)) = None)
   \<and> (fails_next 1 r \<longrightarrow>
        sent (fst (rateLimiter (Some t) now r)) \<noteq> Some (minute_denied (tenant_limits t)))"
proof (intro conjI impI)
  assume "fails_next 2 r"
  then have "\<not> connected r \<or> (\<exists>fs. faults r = True # True # fs)"
    by (cases "faults r"; cases "tl (faults r)") (auto simp: fails_next_def numeral_2_eq_2)
  then show "sent (fst (rateLimiter tn now r)) = None"
    by (auto simp: rateLimiter_def redis_incr_def to_number_def proceed_def split: option.splits)
next
  assume "fails_next 1 r \<and> 0 < apiCallsPerMonth (tenant_limits t)"
  then have "\<not> connected r \<or> (\<exists>fs. faults r = True # fs)" and "0 < apiCallsPerMonth (tenant_limits t)"
    by (cases "faults r"; auto simp: fails_next_def)+
  then show "sent (fst (checkMonthlyLimit (Some t) currentMonth r)) = None"
    by (auto simp: checkMonthlyLimit_def redis_get_def proceed_def split: prod.splits)
next
  assume "fails_next 1 r"
  then have "\<not> connected r \<or> (\<exists>fs. faults r = True # fs)"
    by (cases "faults r") (auto simp: fails_next_def)
  then show "sent (fst (rateLimiter (Some t) now r)) \<noteq> Some (minute_denied (tenant_limits t))"
    by (auto simp: rateLimiter_def redis_incr_def to_number_def minute_denied_def hour_denied_def
             split: prod.splits if_splits)
qed

theorem quota_fail_open_witness:
  "sent (fst (rateLimiter (Some tenant_free) 120000 (redis_empty\<lparr>connected := False\<rparr>))) = None
   \<and> take 1 (faults (redis_empty\<lparr>faults := [True]\<rparr>)) = replicate 1 True
   \<and> 0 < apiCallsPerMonth (tenant_limits tenant_free)
   \<and> sent (fst (checkMonthlyLimit (Some tenant_free) ''2026-11'' (redis_empty\<lparr>faults := [True]\<rparr>))) = None
   \<and> sent (fst (rateLimiter (Some tenant_free) 120000 (redis_empty\<lparr>faults := [True]\<rparr>)))
        \<noteq> Some (minute_denied (tenant_limits tenant_free))"
  using quota_fail_open[of "redis_empty\<lparr>connected := False\<rparr>" "Some tenant_free" 120000]
        quota_fail_open[of "redis_empty\<lparr>faults := [True]\<rparr>" "Some tenant_free" 120000 tenant_free "''2026-11''"]
  by (simp add: fails_next_def redis_empty_def tenant_free_def)

text \<open>
  The claim as stated admits the request whenever some operation of the store fails.
  Here the minute increment fails while the hour increment succeeds and finds the hour
  bucket exhausted: the request is denied with \<open>retryAfter = 3600\<close>.  The second part
  shows why the monthly limit must be positive: with a limit of 0 and the store not
  connected, the usage reads as 0, which has already reached the limit.
\<close>

theorem quota_fail_open_counterexample:
  "connected (redis_empty\<lparr>faults := [True], kv := [hourKey ''ten_a'' 120000 \<mapsto> 100]\<rparr>)
   \<and> fst (redis_incr (minuteKey ''ten_a'' 120000)
            (redis_empty\<lparr>faults := [True], kv := [hourKey ''ten_a'' 120000 \<mapsto> 100]\<rparr>)) = None
   \<and> sent (fst (rateLimiter (Some tenant_free) 120000
                  (redis_empty\<lparr>faults := [True], kv := [hourKey ''ten_a'' 120000 \<mapsto> 100]\<rparr>)))
        = Some (hour_denied (tenant_limits tenant_free))
   \<and> sent (fst (checkMonthlyLimit
                  (Some \<lparr>tenantId = ''ten_a'', tenant_limits = (PLANS_limits FREE)\<lparr>apiCallsPerMonth := 0\<rparr>\<rparr>)
                  ''2026-11'' (redis_empty\<lparr>connected := False\<rparr>)))
        = Some (month_denied ((PLANS_limits FREE)\<lparr>apiCallsPerMonth := 0\<rparr>) 0)"
  by (simp add: redis_empty_def tenant_free_def rateLimiter_def redis_incr_def redis_expire_def
        redis_get_def checkMonthlyLimit_def to_number_def minuteKey_def hourKey_def monthKey_def)



section \<open>Properties of the retrieval tiers\<close>

lemma fallbackTextSearch_returns: "\<exists>rs. fallbackTextSearch db tid q opts = Inr rs"
  by (simp add: fallbackTextSearch_def split: sum.splits)

lemma search_returns: "\<exists>rs. search db tid q opts = Inr rs"
  using fallbackTextSearch_returns[of db tid q opts]
  by (auto simp: search_def search_body_def split: sum.splits)

text \<open>
  Claim C3.  The tiers are tried in order, each falling through to the next.  When the
  vector tier raises or yields no passage, \<open>search\<close> is the result of
  \<open>fallbackTextSearch\<close>, and no error is propagated.  When the text tier yields at least
  one hit, \<open>fallbackTextSearch\<close> returns its hits as they are, without a further
  fallback.  When all three tiers yield no passage, \<open>search\<close> returns the empty sequence.
\<close>

theorem search_fall_through:
  "((\<exists>e. vector_tier db tid q opts = Inl e) \<or> vector_tier db tid q opts = Inr [] \<longrightarrow>
       search db tid q opts = fallbackTextSearch db tid q opts
       \<and> (\<exists>rs. search db tid q opts = Inr rs))
   \<and> (text_tier db tid q opts = Inr hits \<and> hits \<noteq> [] \<longrightarrow>
       fallbackTextSearch db tid q opts = Inr hits)
   \<and> (((\<exists>e. vector_tier db tid q opts = Inl e) \<or> vector_tier db tid q opts = Inr [])
       \<and> ((\<exists>e. text_tier db tid q opts = Inl e) \<or> text_tier db tid q opts = Inr [])
       \<and> regex_tier db tid q opts = Inr [] \<longrightarrow>
       search db tid q opts = Inr [])"
  using fallbackTextSearch_returns[of db tid q opts]
  by (auto simp: search_def search_body_def fallbackTextSearch_def fallback_body_def
           split: sum.splits)

theorem search_fall_through_witness:
  "vector_tier (keyword_only_db [returns_chunk]) ''ten_a'' ''free shipping'' default_options
     = Inl (MongoError ''$vectorSearch is not allowed'')
   \<and> search (keyword_only_db [returns_chunk]) ''ten_a'' ''free shipping'' default_options
     = fallbackTextSearch (keyword_only_db [returns_chunk]) ''ten_a'' ''free shipping'' default_options
   \<and> text_tier (text_index_db [with_score (project returns_chunk) 2]) ''ten_a'' ''free'' default_options
     = Inr [with_score (project returns_chunk) 2]
   \<and> fallbackTextSearch (text_index_db [with_score (project returns_chunk) 2]) ''ten_a'' ''free''
        default_options = Inr [with_score (project returns_chunk) 2]
   \<and> regex_tier (text_index_db []) ''ten_a'' ''free'' default_options = Inr []
   \<and> search (text_index_db []) ''ten_a'' ''free'' default_options = Inr []"
proof -
  have v: "vector_tier (keyword_only_db [returns_chunk]) ''ten_a'' ''free shipping'' default_options
     = Inl (MongoError ''$vectorSearch is not allowed'')"
    by (simp add: keyword_only_db_def)
  have t: "text_tier (text_index_db [with_score (project returns_chunk) 2]) ''ten_a'' ''free'' default_options
     = Inr [with_score (project returns_chunk) 2]"
    by (simp add: text_index_db_def)
  have ne: "[with_score (project returns_chunk) 2] \<noteq> []" by simp
  have z: "vector_tier (text_index_db []) ''ten_a'' ''free'' default_options = Inr []"
      "text_tier (text_index_db []) ''ten_a'' ''free'' default_options = Inr []"
    by (simp_all add: text_index_db_def)
  have k: "regex_tier (text_index_db []) ''ten_a'' ''free'' default_options = Inr []"
    by code_simp
  have a: "search (keyword_only_db [returns_chunk]) ''ten_a'' ''free shipping'' default_options
     = fallbackTextSearch (keyword_only_db [returns_chunk]) ''ten_a'' ''free shipping'' default_options"
    using search_fall_through[of "keyword_only_db [returns_chunk]" "''ten_a''" "''free shipping''"
            default_options] v
    by blast
  have b: "fallbackTextSearch (text_index_db [with_score (project returns_chunk) 2]) ''ten_a'' ''free''
        default_options = Inr [with_score (project returns_chunk) 2]"
    using search_fall_through[of "text_index_db [with_score (project returns_chunk) 2]" "''ten_a''"
            "''free''" default_options "[with_score (project returns_chunk) 2]"] t ne
    by blast
  have c: "search (text_index_db []) ''ten_a'' ''free'' default_options = Inr []"
    using search_fall_through[of "text_index_db []" "''ten_a''" "''free''" default_options] z k
    by blast
  from v a t b k c show ?thesis by blast
qed

text \<open>
  Claim C8, as amended.  A failure inside the keyword tier is not fatal to the query:
  the \<open>catch\<close> of \<open>fallbackTextSearch\<close> logs it and returns the empty sequence.  So when
  the keyword tier is reached and raises, \<open>fallbackTextSearch\<close> returns the empty
  sequence, and neither \<open>fallbackTextSearch\<close> nor \<open>search\<close> ever raises.
\<close>

theorem keyword_tier_error_caught:
  "(regex_tier db tid q opts = Inl e
      \<and> \<not> (\<exists>hits. text_tier db tid q opts = Inr hits \<and> hits \<noteq> []) \<longrightarrow>
        fallbackTextSearch db tid q opts = Inr [])
   \<and> (\<exists>rs. fallbackTextSearch db tid q opts = Inr rs)
   \<and> (\<exists>rs. search db tid q opts = Inr rs)"
  using fallbackTextSearch_returns[of db tid q opts] search_returns[of db tid q opts]
  by (auto simp: fallbackTextSearch_def fallback_body_def split: sum.splits)

theorem keyword_tier_error_caught_witness:
  "regex_tier ((keyword_only_db [returns_chunk])\<lparr>find_error := Some (MongoError ''connection closed'')\<rparr>)
        ''ten_a'' ''free shipping'' default_options = Inl (MongoError ''connection closed'')
   \<and> fallbackTextSearch ((keyword_only_db [returns_chunk])\<lparr>find_error := Some (MongoError ''connection closed'')\<rparr>)
        ''ten_a'' ''free shipping'' default_options = Inr []"
proof -
  let ?db = "(keyword_only_db [returns_chunk])\<lparr>find_error := Some (MongoError ''connection closed'')\<rparr>"
  have r: "regex_tier ?db ''ten_a'' ''free shipping'' default_options = Inl (MongoError ''connection closed'')"
    by code_simp
  have t: "\<not> (\<exists>hits. text_tier ?db ''ten_a'' ''free shipping'' default_options = Inr hits \<and> hits \<noteq> [])"
    by (simp add: keyword_only_db_def)
  from keyword_tier_error_caught[of ?db "''ten_a''" "''free shipping''" default_options
         "MongoError ''connection closed''"] r t
  show ?thesis by simp
qed

text \<open>
  The claim as stated lets an error of the keyword tier surface to the caller.  Here
  the keyword tier raises, once because the collection cannot be read and once because
  the keyword \<open>c++\<close> does not compile in the scoring loop; \<open>search\<close> returns the empty
  sequence both times.
\<close>

theorem keyword_tier_error_counterexample:
  "regex_tier ((keyword_only_db [example_chunk ''chk_1'' ''Intro'' ''a c++ tutorial''])
                 \<lparr>find_error := Some (MongoError ''connection closed'')\<rparr>)
        ''ten_a'' ''c++ tutorial'' default_options = Inl (MongoError ''connection closed'')
   \<and> search ((keyword_only_db [example_chunk ''chk_1'' ''Intro'' ''a c++ tutorial''])
                 \<lparr>find_error := Some (MongoError ''connection closed'')\<rparr>)
        ''ten_a'' ''c++ tutorial'' default_options = Inr []
   \<and> regex_tier ((keyword_only_db [example_chunk ''chk_1'' ''Intro'' ''a c++ tutorial''])
                 \<lparr>engines := c_plus_plus_engines\<rparr>)
        ''ten_a'' ''c++ tutorial'' default_options = Inl (SyntaxError ''Invalid regular expression'')
   \<and> search ((keyword_only_db [example_chunk ''chk_1'' ''Intro'' ''a c++ tutorial''])
                 \<lparr>engines := c_plus_plus_engines\<rparr>)
        ''ten_a'' ''c++ tutorial'' default_options = Inr []"
  by code_simp

subsection \<open>The keyword tier: which passages are returned\<close>

lemma relevance_sum:
  "foldl (\<lambda>sc cnt. sc + of_nat (cnt s) * (c::rat)) a counters
     = a + of_nat (sum_list (map (\<lambda>cnt. cnt s) counters)) * c"
  by (induction counters arbitrary: a) (simp_all add: algebra_simps)

lemma with_score_sel [simp]:
  "hit_text (with_score h s) = hit_text h"
  "hit_sectionTitle (with_score h s) = hit_sectionTitle h"
  "score (with_score h s) = s"
  by (simp_all add: with_score_def hit.defs passage.defs)

lemma to_lower_idem [simp]: "to_lower (to_lower c) = to_lower c"
  by (auto simp: to_lower_def Let_def)

lemma to_lower_sp [simp]: "to_lower CHR '' '' = CHR '' ''"
  by (simp add: to_lower_def)

lemma to_lower_space:
  assumes "to_lower c = CHR '' ''"
  shows "c = CHR '' ''"
proof (rule ccontr)
  assume ne: "c \<noteq> CHR '' ''"
  let ?n = "of_char c :: nat"
  from assms ne have range: "(65 \<le> ?n \<and> ?n \<le> 90) \<or> (192 \<le> ?n \<and> ?n \<le> 222 \<and> ?n \<noteq> 215)"
    and up: "char_of (?n + 32) = CHR '' ''"
    by (auto simp: to_lower_def Let_def split: if_splits)
  from up have "(of_char (char_of (?n + 32)) :: nat) = of_char CHR '' ''" by simp
  then have "(?n + 32) mod 256 = 32" by simp
  with range show False by auto
qed

lemma split_ws_no_ws_all: "\<forall>t \<in> set (split_ws s). \<forall>c \<in> set t. \<not> is_ws c"
proof (induction s rule: split_ws.induct)
  case 1
  then show ?case by simp
next
  case (2 d ds)
  show ?case
  proof (cases "is_ws d")
    case True
    with 2(1) show ?thesis by simp
  next
    case False
    with 2(2) show ?thesis by (cases "split_ws ds") auto
  qed
qed

lemma split_ws_no_ws: "t \<in> set (split_ws s) \<Longrightarrow> c \<in> set t \<Longrightarrow> \<not> is_ws c"
  using split_ws_no_ws_all by blast

lemma keywords_of_no_space:
  assumes "k \<in> set (keywords_of q)"
  shows "CHR '' '' \<notin> set (toLowerCase k)" and "k \<noteq> []"
proof -
  from assms have k: "k \<in> set (split_ws (toLowerCase q))" and len: "length k > 2"
    by (auto simp: keywords_of_def)
  from len show "k \<noteq> []" by auto
  have ws: "is_ws CHR '' ''" by (simp add: is_ws_def)
  show "CHR '' '' \<notin> set (toLowerCase k)"
  proof
    assume "CHR '' '' \<in> set (toLowerCase k)"
    then obtain c where "c \<in> set k" "to_lower c = CHR '' ''" by (auto simp: toLowerCase_def)
    then have "CHR '' '' \<in> set k" by (auto dest: to_lower_space)
    with split_ws_no_ws[OF k] ws show False by blast
  qed
qed

lemma match_here_prefix:
  "match_here ts (map Lit k) s \<Longrightarrow> prefix (map to_lower k) (map to_lower s)"
  by (induction ts "map Lit k" s arbitrary: k rule: match_here.induct) auto

lemma count_matches_sublist:
  "count_matches ts (map Lit k) s > 0 \<Longrightarrow> k \<noteq> [] \<Longrightarrow> sublist (map to_lower k) (map to_lower s)"
proof (induction ts "map Lit k" s rule: count_matches.induct)
  case (1 ts s)
  show ?case
  proof (cases "match_here ts (map Lit k) s")
    case True
    then show ?thesis by (auto dest: match_here_prefix)
  next
    case False
    with 1 have s: "s \<noteq> []" and "count_matches ts (map Lit k) (tl s) > 0"
      by (auto simp: count_matches.simps[of ts "map Lit k" s] split: if_splits)
    with 1(2) False 1(4) have "sublist (map to_lower k) (map to_lower (tl s))"
      by auto
    then show ?thesis using s by (cases s) (auto simp: sublist_Cons_right)
  qed
qed

lemma sublist_around_separator:
  assumes "sublist xs (as @ sep # bs)" and "sep \<notin> set xs"
  shows "sublist xs as \<or> sublist xs bs"
proof -
  from assms(1) consider "sublist xs as" | "sublist xs (sep # bs)"
    | xs1 xs2 where "xs = xs1 @ xs2" "suffix xs1 as" "prefix xs2 (sep # bs)"
    by (auto simp: sublist_append)
  then show ?thesis
  proof cases
    case 1
    then show ?thesis by simp
  next
    case 2
    then have "prefix xs (sep # bs) \<or> sublist xs bs" by (simp add: sublist_Cons_right)
    with assms(2) show ?thesis by (cases xs) auto
  next
    case 3
    with assms(2) have "xs2 = []" by (cases xs2) auto
    with 3 show ?thesis by auto
  qed
qed

lemma plain_atoms:
  "\<forall>c \<in> set k. \<not> rx_special c \<Longrightarrow> rx_atoms k = Some (map Lit k)"
  by (auto simp: rx_atoms_def rx_special_def)

lemma plain_compile_all:
  assumes "\<forall>k \<in> set ks. \<forall>c \<in> set k. \<not> rx_special c"
  shows "compile_all (js_match_count eng) ks
           = Some (map (\<lambda>k. count_matches js_terminators (map Lit k)) ks)"
  using assms unfolding compile_all_def
  by (induction ks) (simp_all add: js_match_count_def plain_atoms)

lemma relevance_positive:
  assumes "relevance (map f ks) h > 1 / 10"
  shows "\<exists>k \<in> set ks. f k (toLowerCase (hit_text h @ '' '' @ hit_sectionTitle h)) > 0"
proof (rule ccontr)
  let ?s = "toLowerCase (hit_text h @ '' '' @ hit_sectionTitle h)"
  assume "\<not> (\<exists>k \<in> set ks. f k ?s > 0)"
  then have "map (\<lambda>cnt. cnt ?s) (map f ks) = map (\<lambda>k. 0) ks" by simp
  then have sum0: "sum_list (map (\<lambda>cnt. cnt ?s) (map f ks)) = 0" by simp
  have "relevance (map f ks) h = 0"
    unfolding relevance_def relevance_sum sum0 by simp
  with assms show False by simp
qed

text \<open>
  Claim C4, as amended.  For a query whose keywords (the lower-cased words longer than
  two characters) contain no syntax character of regular expressions, every passage
  returned by the keyword tier holds at least one of the keywords, up to case, in its
  chunk text or in its section title.
\<close>

theorem regex_tier_some_keyword:
  assumes "regex_tier db tid q opts = Inr rs" and "r \<in> set rs"
    and "\<forall>k \<in> set (keywords_of q). \<forall>c \<in> set k. \<not> rx_special c"
  shows "\<exists>k \<in> set (keywords_of q). occurs_in k (hit_text r) \<or> occurs_in k (hit_sectionTitle r)"
proof -
  let ?ks = "keywords_of q"
  let ?f = "\<lambda>k. count_matches js_terminators (map Lit k)"
  from assms(1,2) obtain results scored where
      sc: "score_results (engines db) ?ks results = Inr scored" and r: "r \<in> set scored"
      and hi: "score r > 1 / 10"
    by (auto simp: regex_tier_def Let_def split: sum.splits dest!: in_set_takeD)
  from sc r obtain h where h: "r = with_score h (relevance (map ?f ?ks) h)"
    by (auto simp: score_results_def plain_compile_all[OF assms(3)] split: if_splits)
  let ?s = "hit_text h @ '' '' @ hit_sectionTitle h"
  from hi h obtain k where k: "k \<in> set ?ks" and pos: "?f k (toLowerCase ?s) > 0"
    using relevance_positive[of ?f ?ks h] by auto
  note kw = keywords_of_no_space[OF k]
  from count_matches_sublist[OF pos kw(2)]
  have "sublist (toLowerCase k) (toLowerCase (hit_text h) @ CHR '' '' # toLowerCase (hit_sectionTitle h))"
    by (simp add: toLowerCase_def comp_def)
  from sublist_around_separator[OF this kw(1)] h k show ?thesis
    by (auto simp: occurs_in_def)
qed

theorem regex_tier_some_keyword_witness:
  "regex_tier (keyword_only_db [returns_chunk]) ''ten_a'' ''free shipping'' default_options
      = Inr [with_score (project returns_chunk) (3 / 20)]
   \<and> (\<exists>k \<in> set (keywords_of ''free shipping'').
         occurs_in k (hit_text (with_score (project returns_chunk) (3 / 20)))
         \<or> occurs_in k (hit_sectionTitle (with_score (project returns_chunk) (3 / 20))))"
proof -
  let ?db = "keyword_only_db [returns_chunk]"
  have r: "regex_tier ?db ''ten_a'' ''free shipping'' default_options
      = Inr [with_score (project returns_chunk) (3 / 20)]"
    by code_simp
  have p: "\<forall>k \<in> set (keywords_of ''free shipping''). \<forall>c \<in> set k. \<not> rx_special c"
    by code_simp
  from regex_tier_some_keyword[OF r _ p, of "with_score (project returns_chunk) (3 / 20)"] r
  show ?thesis by simp
qed

text \<open>
  The claim as stated requires every keyword in every returned passage.  The query of
  the keyword tier also selects a document whose text matches any one keyword: the
  query \<open>free shipping\<close> returns the chunk \<open>free returns\<close>, which lacks \<open>shipping\<close> in its
  text and in its title.
\<close>

theorem regex_tier_conjunctive_counterexample:
  "keywords_of ''free shipping'' = [''free'', ''shipping'']
   \<and> regex_tier (keyword_only_db [example_chunk ''chk_1'' ''Returns'' ''free returns''])
        ''ten_a'' ''free shipping'' default_options
      = Inr [with_score (project (example_chunk ''chk_1'' ''Returns'' ''free returns'')) (3 / 20)]
   \<and> \<not> occurs_in ''shipping'' ''free returns''
   \<and> \<not> occurs_in ''shipping'' ''Returns''"
  by code_simp

subsection \<open>The keyword tier: scores, order and number of the passages\<close>

text \<open>
  Whatever the query, at most \<open>limit\<close> passages are returned, every score exceeds 0.1, and
  the scores are in non-increasing order (their negations are sorted).  For keywords
  without syntax characters the score of a passage is 0.15 for each match of each
  keyword in the lower-cased text and title, capped at 1.
\<close>

lemma set_sort_key_filter: "set (take n (sort_key f (filter P xs))) \<subseteq> {x \<in> set xs. P x}"
  by (auto dest: in_set_takeD)

lemma sorted_take_desc:
  "sorted (map (\<lambda>r. - score r) (take n (sort_key (\<lambda>r. - score r) xs)))"
  by (simp add: take_map[symmetric] sorted_wrt_take)

lemma regex_tier_shape:
  assumes "regex_tier db tid q opts = Inr rs"
  shows "length rs \<le> (case limit opts of None \<Rightarrow> VECTOR_SEARCH_limit | Some m \<Rightarrow> m)"
    and "\<forall>r \<in> set rs. score r > 1 / 10"
    and "sorted (map (\<lambda>r. - score r) rs)"
  using assms set_sort_key_filter
  by (auto simp: regex_tier_def Let_def sorted_take_desc split: sum.splits dest!: in_set_takeD)

lemma regex_tier_score:
  assumes "regex_tier db tid q opts = Inr rs" and "r \<in> set rs"
    and "\<forall>k \<in> set (keywords_of q). \<forall>c \<in> set k. \<not> rx_special c"
  shows "score r = min 1 ((15 / 100) * of_nat (sum_list (map
           (\<lambda>k. count_matches js_terminators (map Lit k)
                  (toLowerCase (hit_text r @ '' '' @ hit_sectionTitle r)))
           (keywords_of q))))"
proof -
  let ?ks = "keywords_of q"
  let ?f = "\<lambda>k. count_matches js_terminators (map Lit k)"
  from assms(1,2) obtain results scored where
      sc: "score_results (engines db) ?ks results = Inr scored" and r: "r \<in> set scored"
    by (auto simp: regex_tier_def Let_def split: sum.splits dest!: in_set_takeD)
  from sc r obtain h where h: "r = with_score h (relevance (map ?f ?ks) h)"
    by (auto simp: score_results_def plain_compile_all[OF assms(3)] split: if_splits)
  have "relevance (map ?f ?ks) h
          = min (0 + of_nat (sum_list (map (\<lambda>cnt. cnt (toLowerCase (hit_text h @ '' '' @ hit_sectionTitle h)))
                                  (map ?f ?ks))) * (15 / 100)) 1"
    unfolding relevance_def relevance_sum ..
  then show ?thesis
    unfolding h by (simp add: comp_def min.commute)
qed

text \<open>
  Claim C5, at the failing input.  The scoring loop compiles each keyword as a pattern
  without escaping it, although the lookahead pattern built two lines earlier escapes
  it.  For the query \<open>1.5 inch\<close> the dot of the keyword \<open>1.5\<close> matches the \<open>2\<close> of \<open>125\<close>:
  the passage is returned with the score 0.30, while the keywords occur once in its
  text and title, which gives 0.15.  (That the returned scores exceed 0.1, are in
  non-increasing order and are at most \<open>limit\<close> many is \<open>regex_tier_shape\<close>.)
\<close>

theorem keyword_score_unescaped:
  "keywords_of ''1.5 inch'' = [''1.5'', ''inch'']
   \<and> search (keyword_only_db [example_chunk ''chk_1'' ''Screws'' ''125 inch screws''])
        ''ten_a'' ''1.5 inch'' default_options
      = Inr [with_score (project (example_chunk ''chk_1'' ''Screws'' ''125 inch screws'')) (3 / 10)]
   \<and> spec_score (keywords_of ''1.5 inch'') ''125 inch screws'' ''Screws'' = 3 / 20"
  by code_simp

section \<open>Properties of ingestion\<close>

lemma chunkText_config_returns:
  "\<exists>cks. chunkText txt CHUNK_CONFIG_size CHUNK_CONFIG_overlap = Some cks"
  unfolding chunkText_def
  by (rule chunkText_loop_terminates) (simp add: CHUNK_CONFIG_size_def CHUNK_CONFIG_overlap_def)

lemma register_section_rejected:
  assumes "db_faults s = []" and "\<not> accepted sec"
  shows "\<exists>e s'. register_section svc tid sec s = Some (Inl e, s')
         \<and> db_faults s' = [] \<and> sections s' = sections s \<and> chunks s' = chunks s"
proof -
  obtain cks where ck: "chunkText (in_content sec) CHUNK_CONFIG_size CHUNK_CONFIG_overlap = Some cks"
    using chunkText_config_returns by blast
  with assms(2) have "length (js_trim (in_content sec)) = 0 \<or> cks = []"
    by (auto simp: accepted_def split: list.splits)
  then show ?thesis
    using assms(1) by (auto simp: register_section_def ck generateId_section_def)
qed

lemma register_section_accepted:
  assumes "db_faults s = []" and "accepted sec"
  shows "\<exists>res doc rows s'.
           register_section svc tid sec s = Some (Inr (res, length rows), s')
         \<and> db_faults s' = []
         \<and> sections s' = sections s @ [doc] \<and> chunks s' = chunks s @ rows
         \<and> stored_as tid sec (doc, rows)"
proof -
  from assms(2) obtain c cs where ck: "chunkText (in_content sec) CHUNK_CONFIG_size CHUNK_CONFIG_overlap = Some (c # cs)"
    and nb: "length (js_trim (in_content sec)) \<noteq> 0"
    by (auto simp: accepted_def split: option.splits list.splits)
  show ?thesis
    using assms(1) nb
    by (simp add: register_section_def ck generateId_section_def insertOne_def insertMany_def
          chunkDocs_def db_command_def stored_as_def list_all_iff del: upt_Suc)
qed

lemma register_loop_prefix:
  assumes "db_faults s = []"
  shows "\<exists>r s' created.
           register_loop svc tid secs results tot s = Some (r, s')
         \<and> db_faults s' = []
         \<and> sections s' = sections s @ map fst created
         \<and> chunks s' = chunks s @ concat (map snd created)
         \<and> list_all2 (stored_as tid) (takeWhile accepted secs) created
         \<and> (if list_all accepted secs
             then \<exists>results'. r = Inr (results', tot + length (concat (map snd created)))
                    \<and> length results' = length results + length secs
             else \<exists>e. r = Inl e)"
  using assms
proof (induction secs arbitrary: s results tot)
  case Nil
  then show ?case by simp
next
  case (Cons sec rest)
  show ?case
  proof (cases "accepted sec")
    case False
    from register_section_rejected[OF Cons.prems False, of svc tid]
    obtain e s' where "register_section svc tid sec s = Some (Inl e, s')"
      "db_faults s' = []" "sections s' = sections s" "chunks s' = chunks s"
      by blast
    with False show ?thesis by auto
  next
    case True
    from register_section_accepted[OF Cons.prems True, of svc tid]
    obtain res doc rows s1 where one:
        "register_section svc tid sec s = Some (Inr (res, length rows), s1)"
        "db_faults s1 = []" "sections s1 = sections s @ [doc]" "chunks s1 = chunks s @ rows"
        "stored_as tid sec (doc, rows)"
      by blast
    from Cons.IH[OF one(2), of "results @ [res]" "tot + length rows"]
    obtain r s' created where rest:
        "register_loop svc tid rest (results @ [res]) (tot + length rows) s1 = Some (r, s')"
        "db_faults s' = []"
        "sections s' = sections s1 @ map fst created"
        "chunks s' = chunks s1 @ concat (map snd created)"
        "list_all2 (stored_as tid) (takeWhile accepted rest) created"
        "if list_all accepted rest
         then \<exists>results'. r = Inr (results', tot + length rows + length (concat (map snd created)))
                \<and> length results' = length (results @ [res]) + length rest
         else \<exists>e. r = Inl e"
      by blast
    show ?thesis
      apply (rule exI[of _ r], rule exI[of _ s'], rule exI[of _ "(doc, rows) # created"])
      using True one rest by (auto simp: add.assoc)
  qed
qed

lemma getSection_stored:
  assumes "db_faults s = []" and "doc \<in> set (sections s)" and "section_tenantId doc = tid"
  shows "\<exists>d. fst (getSection tid (sectionId doc) s) = Inr d"
proof -
  from assms(2,3) have "find (\<lambda>d. section_tenantId d = tid \<and> sectionId d = sectionId doc) (sections s) \<noteq> None"
    by (auto simp: find_None_iff)
  then show ?thesis using assms(1)
    by (auto simp: getSection_def db_command_def)
qed

text \<open>
  Claim C1, as amended.  With a database whose commands succeed, \<open>registerData\<close>
  returns.  If the tenant's sections and the batch together exceed \<open>sectionsPerTenant\<close>,
  it fails before any write and creates nothing.  Otherwise it stores the sections of
  the batch in order, each with its chunk rows in the same step and with \<open>chunkCount\<close>
  equal to the number of those rows, up to the first section that fails a check of the
  loop body (blank content, or no chunk).  If no section fails, the call succeeds and
  reports \<open>sectionsCreated\<close> as the size of the batch and \<open>chunksCreated\<close> as the number of
  rows stored.  If one fails, the call fails, and the sections before it stay stored
  with their rows.  Every section stored is found by \<open>getSection\<close> at once.
\<close>

theorem registerData_prefix:
  assumes "db_faults s = []"
  shows "\<exists>res s' created.
           registerData svc tid secs lims s = Some (res, s')
         \<and> sections s' = sections s @ map fst created
         \<and> chunks s' = chunks s @ concat (map snd created)
         \<and> list_all (\<lambda>(doc, rows). \<exists>d. fst (getSection tid (sectionId doc) s') = Inr d) created
         \<and> (if length (filter (\<lambda>d. section_tenantId d = tid) (sections s)) + length secs
                 > sectionsPerTenant lims
             then created = [] \<and> (\<exists>e. res = Inl e)
             else list_all2 (stored_as tid) (takeWhile accepted secs) created
                \<and> (if list_all accepted secs
                    then \<exists>out. res = Inr out \<and> sectionsCreated out = length secs
                           \<and> chunksCreated out = length (concat (map snd created))
                           \<and> length (result_sections out) = length secs
                    else \<exists>e. res = Inl e))"
proof (cases "length (filter (\<lambda>d. section_tenantId d = tid) (sections s)) + length secs
                 > sectionsPerTenant lims")
  case True
  with assms show ?thesis
    by (simp add: registerData_def countDocuments_def db_command_def)
next
  case False
  from register_loop_prefix[OF assms, of svc tid secs "[]" 0]
  obtain r s' created where loop0:
      "register_loop svc tid secs [] 0 s = Some (r, s')
       \<and> db_faults s' = []
       \<and> sections s' = sections s @ map fst created
       \<and> chunks s' = chunks s @ concat (map snd created)
       \<and> list_all2 (stored_as tid) (takeWhile accepted secs) created
       \<and> (if list_all accepted secs
           then \<exists>results'. r = Inr (results', 0 + length (concat (map snd created)))
                  \<and> length results' = length ([] :: section_result list) + length secs
           else \<exists>e. r = Inl e)"
    by blast
  then have loop:
      "register_loop svc tid secs [] 0 s = Some (r, s')"
      "db_faults s' = []"
      "sections s' = sections s @ map fst created"
      "chunks s' = chunks s @ concat (map snd created)"
      "list_all2 (stored_as tid) (takeWhile accepted secs) created"
      "if list_all accepted secs
       then \<exists>results'. r = Inr (results', length (concat (map snd created)))
              \<and> length results' = length secs
       else \<exists>e. r = Inl e"
    by (auto split: if_splits)
  have retr: "list_all (\<lambda>(doc, rows). \<exists>d. fst (getSection tid (sectionId doc) s') = Inr d) created"
  proof -
    { fix doc rows assume m: "(doc, rows) \<in> set created"
      then obtain sec where "stored_as tid sec (doc, rows)"
        using loop(5) by (auto simp: list_all2_conv_all_nth in_set_conv_nth)
      then have "section_tenantId doc = tid" by (simp add: stored_as_def)
      moreover from m loop(3) have "doc \<in> set (sections s')" by force
      ultimately have "\<exists>d. fst (getSection tid (sectionId doc) s') = Inr d"
        using getSection_stored[OF loop(2)] by blast }
    then show ?thesis by (auto simp: list_all_iff)
  qed
  obtain res where res: "registerData svc tid secs lims s = Some (res, s')"
      "if list_all accepted secs
       then \<exists>out. res = Inr out \<and> sectionsCreated out = length secs
              \<and> chunksCreated out = length (concat (map snd created))
              \<and> length (result_sections out) = length secs
       else \<exists>e. res = Inl e"
    using False assms loop(1,6)
    by (cases "list_all accepted secs")
       (auto simp: registerData_def countDocuments_def db_command_def)
  show ?thesis
    apply (rule exI[of _ res], rule exI[of _ s'], rule exI[of _ created])
    using False res loop(3,4,5) retr by simp
qed

theorem registerData_prefix_witness:
  "db_faults empty_store = []
   \<and> takeWhile accepted [returns_policy, blank_section] = [returns_policy]
   \<and> (\<exists>e s' created.
         registerData example_services ''ten_a'' [returns_policy, blank_section] (PLANS_limits FREE)
            empty_store = Some (Inl e, s')
       \<and> sections s' = map fst created
       \<and> chunks s' = concat (map snd created)
       \<and> list_all2 (stored_as ''ten_a'') [returns_policy] created)"
proof -
  have f: "db_faults empty_store = []" by (simp add: empty_store_def)
  have t: "takeWhile accepted [returns_policy, blank_section] = [returns_policy]"
    by code_simp
  have n: "\<not> list_all accepted [returns_policy, blank_section]"
    by code_simp
  have l: "\<not> length (filter (\<lambda>d. section_tenantId d = ''ten_a'') (sections empty_store))
              + length [returns_policy, blank_section] > sectionsPerTenant (PLANS_limits FREE)"
    by (simp add: empty_store_def)
  have e: "sections empty_store = []" "chunks empty_store = []"
    by (simp_all add: empty_store_def)
  from registerData_prefix[OF f, of example_services "''ten_a''" "[returns_policy, blank_section]"
         "PLANS_limits FREE"]
  obtain res s' created where r:
      "registerData example_services ''ten_a'' [returns_policy, blank_section] (PLANS_limits FREE)
         empty_store = Some (res, s')"
      "sections s' = sections empty_store @ map fst created"
      "chunks s' = chunks empty_store @ concat (map snd created)"
      "if length (filter (\<lambda>d. section_tenantId d = ''ten_a'') (sections empty_store))
            + length [returns_policy, blank_section] > sectionsPerTenant (PLANS_limits FREE)
       then created = [] \<and> (\<exists>e. res = Inl e)
       else list_all2 (stored_as ''ten_a'') (takeWhile accepted [returns_policy, blank_section]) created
          \<and> (if list_all accepted [returns_policy, blank_section]
              then \<exists>out. res = Inr out \<and> sectionsCreated out = length [returns_policy, blank_section]
                     \<and> chunksCreated out = length (concat (map snd created))
                     \<and> length (result_sections out) = length [returns_policy, blank_section]
              else \<exists>e. res = Inl e)"
    by blast
  from r(4) l n have "list_all2 (stored_as ''ten_a'') (takeWhile accepted [returns_policy, blank_section]) created"
      and "\<exists>e. res = Inl e"
    by (simp_all only: if_False)
  with r(1,2,3) t e f show ?thesis by auto
qed

text \<open>
  The claim as stated makes a failed call create nothing, and never shows a section
  document without its chunk rows.  A batch of a valid section followed by a blank one
  fails at the second and leaves the first stored with its row.  And when \<open>insertMany\<close>
  is rejected after \<open>insertOne\<close> went through, the section document stays, with
  \<open>chunkCount\<close> 1 and no chunk row.
\<close>

theorem registerData_atomic_counterexample:
  "map_option (\<lambda>(res, s). (res, map sectionId (sections s), map chunkCount (sections s),
                             map chunk_sectionId (chunks s)))
     (registerData example_services ''ten_a'' [returns_policy, blank_section] (PLANS_limits FREE)
        empty_store)
     = Some (Inl (Error ''Section \"Blank\" has empty content''), [''sec_0''], [1], [''sec_0''])
   \<and> map_option (\<lambda>(res, s). (res, map sectionId (sections s), map chunkCount (sections s),
                             map chunk_sectionId (chunks s)))
     (registerData example_services ''ten_a'' [returns_policy] (PLANS_limits FREE)
        (empty_store\<lparr>db_faults := [False, False, True]\<rparr>))
     = Some (Inl (MongoError ''insertMany failed''), [''sec_0''], [1], [])"
  by code_simp

end
